theory Spec2Isabelle
  imports Main "HOL-Library.AList"
begin

section \<open>JavaScript values used by the server\<close>

text \<open>
  A value of type \<open>string | undefined\<close> is a \<open>string option\<close> (\<open>None\<close> is
  \<open>undefined\<close>). The source tests such values by truthiness (\<open>if (x)\<close>,
  \<open>if (!x)\<close>): \<open>undefined\<close> and the empty string are falsy, every other string is
  truthy. \<open>truthy\<close> returns the string when the test succeeds.
\<close>

definition truthy :: "string option \<Rightarrow> string option" where
  "truthy v = (case v of None \<Rightarrow> None | Some s \<Rightarrow> if s = [] then None else Some s)"

text \<open>\<open>process.env\<close>: a variable is either unset or holds a string.\<close>

type_synonym env = "string \<Rightarrow> string option"

section \<open>Tool adapter (\<open>createMcpServer\<close>, \<open>wrappedHandler\<close>)\<close>

text \<open>
  A content item is an object with the fields \<open>type\<close> and \<open>text\<close> and possibly more
  fields; the record's extension slot stands for the other fields, which the spread
  \<open>{...item, type: 'text'}\<close> copies unchanged.
\<close>

record item =
  type :: string
  "text" :: string

record 'm toolResult =
  content :: "'m item_scheme list"
  isError :: bool

text \<open>
  The external handler is asynchronous: it resolves with \<open>{ toolResult }\<close> (\<open>Inr\<close>) or
  rejects with an error (\<open>Inl\<close>), and \<open>await handler(args)\<close> rethrows the rejection.
\<close>

definition wrappedHandler ::
  "('a \<Rightarrow> 'e + 'm toolResult) \<Rightarrow> 'a \<Rightarrow> 'e + 'm toolResult" where
  "wrappedHandler handler args =
     (case handler args of
        Inl err \<Rightarrow> Inl err
      | Inr result \<Rightarrow>
          Inr \<lparr> content = map (\<lambda>item. item\<lparr>type := ''text''\<rparr>) (content result),
                isError = isError result \<rparr>)"

section \<open>Session-id extraction (\<open>getSessionId\<close>)\<close>

text \<open>A header value of type \<open>string | string[]\<close>; the header may also be absent.\<close>

datatype header_value = Single string | Multi "string list"

text \<open>
  \<open>!value\<close> holds for \<open>undefined\<close> and for the empty string; an array is truthy even
  when it is empty, and \<open>value[0]\<close> of an empty array is \<open>undefined\<close>.
\<close>

fun getSessionId :: "header_value option \<Rightarrow> string option" where
  "getSessionId None = None"
| "getSessionId (Some (Single s)) = (if s = [] then None else Some s)"
| "getSessionId (Some (Multi [])) = None"
| "getSessionId (Some (Multi (x # xs))) = Some x"

section \<open>HTTP binding: requests, responses, sessions\<close>

text \<open>
  The methods for which the server registers routes. A request is taken as it leaves
  the two library middlewares that run first, the JSON body parser and CORS: its body
  is parsed, and its method is none that CORS answers by itself.
\<close>

datatype http_method = GET | POST | DELETE

text \<open>
  The route that Express matches the request path to: \<open>/healthz\<close>, \<open>/\<close>, \<open>/mcp\<close>,
  or none of the registered ones.
\<close>

datatype route = Healthz | Root | Mcp | NoRoute

record 'b request =
  req_method :: http_method
  path :: route
  authorization :: "string option"
  mcp_session_id :: "header_value option"
  body :: 'b

text \<open>
  The error envelope \<open>{ jsonrpc, error: { code, message }, id }\<close>; \<open>rpc_id = None\<close>
  is \<open>id: null\<close>.
\<close>

record jsonrpc_error =
  jsonrpc :: string
  code :: int
  message :: string
  rpc_id :: "int option"

datatype payload = Json jsonrpc_error | Text string

record response =
  status :: nat
  payload :: payload

text \<open>
  What a request ends with: a response written by the server's own code, a response
  left to the transport of a session (\<open>transport.handleRequest\<close> writes it), or no
  registered route (Express's default handler answers).
\<close>

type_synonym handle = nat

datatype reply = Sent response | ByTransport handle | Unrouted

record SessionEntry =
  server :: handle
  transport :: handle

text \<open>
  \<open>sessions\<close> is a JavaScript \<open>Map\<close>: keys are unique and iteration follows
  insertion order. It is an association list; \<open>Map.set\<close> is \<open>AList.update\<close> (an
  existing key keeps its place, a new key goes to the end), \<open>Map.delete\<close> is
  \<open>AList.delete\<close>, \<open>Map.get\<close> is \<open>map_of\<close>.
\<close>

type_synonym session_table = "(string \<times> SessionEntry) list"

text \<open>
  The callbacks a transport invokes, and what one call into the protocol library does
  as far as the server can see: the callbacks it invokes, in order, and whether it
  returns (\<open>None\<close>) or throws (\<open>Some\<close> of the error's message). \<open>OnClose\<close> carries
  the value of \<open>transport.sessionId\<close> that the callback reads and what the call of
  \<open>server.close()\<close> made by the callback does in its turn.
\<close>

datatype callback =
    OnSessionInitialized "string option"
  | OnSessionClosed "string option"
  | OnClose "string option" call
and call = Call (fired: "callback list") (thrown: "string option")

text \<open>
  The observable effects, in the order they happen: lines given to \<open>logToFile\<close>, the
  calls made to the protocol library and to the HTTP listener, the callbacks that a
  transport (named by its handle) invokes, and the writes to the session table
  (\<open>sessions.set\<close>, \<open>sessions.delete\<close>).
\<close>

datatype effect =
    Log string
  | Connect handle handle
  | HandleRequest handle
  | TransportClose handle
  | ServerClose handle
  | ListenerClose
  | Invoked handle callback
  | SessionsSet string SessionEntry
  | SessionsDelete string

record http_state =
  sessions :: session_table
  effects :: "effect list"
  next_handle :: handle

definition emit :: "effect \<Rightarrow> http_state \<Rightarrow> http_state" where
  "emit e st = st\<lparr>effects := effects st @ [e]\<rparr>"

definition logToFile :: "string \<Rightarrow> http_state \<Rightarrow> http_state" where
  "logToFile msg st = emit (Log msg) st"

text \<open>\<open>sessions.set(sessionId, entry)\<close> and \<open>sessions.delete(sessionId)\<close>.\<close>

definition sessions_set :: "string \<Rightarrow> SessionEntry \<Rightarrow> http_state \<Rightarrow> http_state" where
  "sessions_set sessionId entry st =
     emit (SessionsSet sessionId entry) (st\<lparr>sessions := AList.update sessionId entry (sessions st)\<rparr>)"

definition sessions_delete :: "string \<Rightarrow> http_state \<Rightarrow> http_state" where
  "sessions_delete sessionId st =
     emit (SessionsDelete sessionId) (st\<lparr>sessions := AList.delete sessionId (sessions st)\<rparr>)"

subsection \<open>The protocol library, as seen by the server\<close>

text \<open>
  The behaviour of the external parts is a parameter of the model: the SDK's
  \<open>isInitializeRequest\<close>, \<open>server.connect\<close>, \<open>transport.handleRequest\<close> (with the
  value of \<open>res.headersSent\<close> after it), the \<open>close\<close> methods of a transport and of
  an engine, and the listener's \<open>close\<close>, whose result is \<open>None\<close> when it reports
  no error and \<open>Some msg\<close> when it reports one.
\<close>

record 'b world =
  isInitializeRequest :: "'b \<Rightarrow> bool"
  connect :: "handle \<Rightarrow> handle \<Rightarrow> call"
  handleRequest :: "handle \<Rightarrow> 'b request \<Rightarrow> call"
  headersSent :: "handle \<Rightarrow> 'b request \<Rightarrow> bool"
  close_transport :: "handle \<Rightarrow> call"
  close_server :: "handle \<Rightarrow> call"
  close_listener :: "string option"

subsection \<open>\<open>createSession\<close> and its callbacks\<close>

text \<open>
  \<open>createSession\<close> builds a fresh engine and a fresh transport and returns the pair.
  It does not touch \<open>sessions\<close>.
\<close>

definition createSession :: "http_state \<Rightarrow> SessionEntry \<times> http_state" where
  "createSession st =
     (\<lparr> server = next_handle st, transport = Suc (next_handle st) \<rparr>,
      st\<lparr>next_handle := Suc (Suc (next_handle st))\<rparr>)"

text \<open>\<open>sessionId ?? 'unknown'\<close>: only \<open>undefined\<close> is replaced.\<close>

definition or_unknown :: "string option \<Rightarrow> string" where
  "or_unknown v = (case v of None \<Rightarrow> ''unknown'' | Some s \<Rightarrow> s)"

text \<open>
  The three callbacks of a session, closed over its \<open>{ server, transport }\<close> pair:
  \<open>onsessioninitialized\<close>, \<open>onsessionclosed\<close> and \<open>transport.onclose\<close>. The last
  one calls \<open>server.close()\<close>, during which the library may invoke callbacks of the
  session again. \<open>run_callbacks\<close> runs the callbacks that one call into the library
  invokes.
\<close>

fun run_callback :: "SessionEntry \<Rightarrow> callback \<Rightarrow> http_state \<Rightarrow> http_state"
  and run_callbacks :: "SessionEntry \<Rightarrow> callback list \<Rightarrow> http_state \<Rightarrow> http_state" where
  "run_callback e (OnSessionInitialized v) st =
     (let st0 = emit (Invoked (transport e) (OnSessionInitialized v)) st
      in case truthy v of
           None \<Rightarrow> st0
         | Some sessionId \<Rightarrow>
             logToFile (''Initialized MCP session '' @ sessionId) (sessions_set sessionId e st0))"
| "run_callback e (OnSessionClosed v) st =
     (let st0 = emit (Invoked (transport e) (OnSessionClosed v)) st
      in case truthy v of
           None \<Rightarrow> st0
         | Some sessionId \<Rightarrow>
             logToFile (''Closed MCP session '' @ sessionId) (sessions_delete sessionId st0))"
| "run_callback e (OnClose v (Call cbs failure)) st =
     (let st0 = emit (Invoked (transport e) (OnClose v (Call cbs failure))) st;
          st1 = (case truthy v of
                   None \<Rightarrow> st0
                 | Some sessionId \<Rightarrow> sessions_delete sessionId st0);
          st2 = run_callbacks e cbs (emit (ServerClose (server e)) st1)
      in case failure of
           None \<Rightarrow> st2
         | Some msg \<Rightarrow>
             logToFile (''Error closing MCP server for session '' @ or_unknown v @ '': '' @ msg) st2)"
| "run_callbacks e [] st = st"
| "run_callbacks e (cb # cbs) st = run_callbacks e cbs (run_callback e cb st)"

text \<open>
  A call into the library on behalf of a session: the call is made (the effect), the
  library invokes callbacks of the session, and the call returns or throws.
\<close>

definition perform :: "effect \<Rightarrow> SessionEntry \<Rightarrow> call \<Rightarrow> http_state \<Rightarrow> http_state" where
  "perform made session c st = run_callbacks session (fired c) (emit made st)"

text \<open>\<open>await session.transport.handleRequest(req, res, ...)\<close>.\<close>

definition forward ::
  "'b world \<Rightarrow> SessionEntry \<Rightarrow> 'b request \<Rightarrow> http_state \<Rightarrow> call \<times> http_state" where
  "forward W session req st =
     (let c = handleRequest W (transport session) req
      in (c, perform (HandleRequest (transport session)) session c st))"

subsection \<open>Route handlers\<close>

definition ensureSession :: "http_state \<Rightarrow> string \<Rightarrow> SessionEntry option" where
  "ensureSession st sessionId = map_of (sessions st) sessionId"

definition error_envelope :: "int \<Rightarrow> string \<Rightarrow> payload" where
  "error_envelope c m = Json \<lparr> jsonrpc = ''2.0'', code = c, message = m, rpc_id = None \<rparr>"

text \<open>The \<open>catch\<close> block of the POST handler.\<close>

definition post_catch :: "string \<Rightarrow> bool \<Rightarrow> handle \<Rightarrow> http_state \<Rightarrow> reply \<times> http_state" where
  "post_catch msg sent h st =
     (let st1 = logToFile (''Error handling MCP POST request: '' @ msg) st
      in if \<not> sent
         then (Sent \<lparr> status = 500, payload = error_envelope (- 32603) ''Internal server error'' \<rparr>, st1)
         else (ByTransport h, st1))"

definition post_forward ::
  "'b world \<Rightarrow> SessionEntry \<Rightarrow> 'b request \<Rightarrow> http_state \<Rightarrow> reply \<times> http_state" where
  "post_forward W session req st =
     (case forward W session req st of
        (c, st1) \<Rightarrow>
          (case thrown c of
             None \<Rightarrow> (ByTransport (transport session), st1)
           | Some msg \<Rightarrow>
               post_catch msg (headersSent W (transport session) req) (transport session) st1))"

text \<open>
  The end of the POST handler, reached by an initialize request without a session id:
  \<open>createSession()\<close>, \<open>await session.server.connect(session.transport)\<close>, then
  the request is handed to the new transport; a throw of either goes to the
  \<open>catch\<close> block.
\<close>

definition post_initialize :: "'b world \<Rightarrow> 'b request \<Rightarrow> http_state \<Rightarrow> reply \<times> http_state" where
  "post_initialize W req st =
     (case createSession st of
        (session, st1) \<Rightarrow>
          (let c = connect W (server session) (transport session);
               st2 = perform (Connect (server session) (transport session)) session c st1
           in case thrown c of
                Some msg \<Rightarrow> post_catch msg False (transport session) st2
              | None \<Rightarrow> post_forward W session req st2))"

definition post_mcp :: "'b world \<Rightarrow> 'b request \<Rightarrow> http_state \<Rightarrow> reply \<times> http_state" where
  "post_mcp W req st =
     (case truthy (getSessionId (mcp_session_id req)) of
        Some sessionId \<Rightarrow>
          (case ensureSession st sessionId of
             None \<Rightarrow>
               (Sent \<lparr> status = 404, payload = error_envelope (- 32000) ''Unknown session ID'' \<rparr>, st)
           | Some session \<Rightarrow> post_forward W session req st)
      | None \<Rightarrow>
          if \<not> isInitializeRequest W (body req)
          then (Sent \<lparr> status = 400,
                       payload = error_envelope (- 32600)
                         ''Initialization request required before other operations'' \<rparr>, st)
          else post_initialize W req st)"

text \<open>
  The GET and DELETE handlers of \<open>/mcp\<close> have the same body but for the word in the
  log line; \<open>verb\<close> is that word.
\<close>

definition stream_mcp ::
  "string \<Rightarrow> 'b world \<Rightarrow> 'b request \<Rightarrow> http_state \<Rightarrow> reply \<times> http_state" where
  "stream_mcp verb W req st =
     (case truthy (getSessionId (mcp_session_id req)) of
        None \<Rightarrow> (Sent \<lparr> status = 400, payload = Text ''Missing session ID'' \<rparr>, st)
      | Some sessionId \<Rightarrow>
          (case ensureSession st sessionId of
             None \<Rightarrow> (Sent \<lparr> status = 404, payload = Text ''Unknown session ID'' \<rparr>, st)
           | Some session \<Rightarrow>
               (case forward W session req st of
                  (c, st1) \<Rightarrow>
                    (case thrown c of
                       None \<Rightarrow> (ByTransport (transport session), st1)
                     | Some msg \<Rightarrow>
                         (let st2 = logToFile (''Error handling MCP '' @ verb @ '' request for session ''
                                                 @ sessionId @ '': '' @ msg) st1
                          in if \<not> headersSent W (transport session) req
                             then (Sent \<lparr> status = 500, payload = Text ''Internal server error'' \<rparr>, st2)
                             else (ByTransport (transport session), st2))))))"

definition get_mcp :: "'b world \<Rightarrow> 'b request \<Rightarrow> http_state \<Rightarrow> reply \<times> http_state" where
  "get_mcp = stream_mcp ''GET''"

definition delete_mcp :: "'b world \<Rightarrow> 'b request \<Rightarrow> http_state \<Rightarrow> reply \<times> http_state" where
  "delete_mcp = stream_mcp ''DELETE''"

definition ok_handler :: "http_state \<Rightarrow> reply \<times> http_state" where
  "ok_handler st = (Sent \<lparr> status = 200, payload = Text ''ok'' \<rparr>, st)"

text \<open>The routes, in registration order.\<close>

definition router :: "'b world \<Rightarrow> 'b request \<Rightarrow> http_state \<Rightarrow> reply \<times> http_state" where
  "router W req st =
     (if req_method req = GET \<and> path req = Healthz then ok_handler st
      else if req_method req = GET \<and> path req = Root then ok_handler st
      else if req_method req = POST \<and> path req = Mcp then post_mcp W req st
      else if req_method req = GET \<and> path req = Mcp then get_mcp W req st
      else if req_method req = DELETE \<and> path req = Mcp then delete_mcp W req st
      else (Unrouted, st))"

subsection \<open>The authorization middleware and the application\<close>

text \<open>
  \<open>requiredToken\<close> is \<open>process.env.MCP_API_TOKEN\<close>. The middleware is installed only
  when \<open>requiredToken\<close> is truthy, and it is installed before every route. Its result
  is \<open>None\<close> for \<open>next()\<close> and the 401 response otherwise.
\<close>

definition auth_middleware :: "string \<Rightarrow> 'b request \<Rightarrow> response option" where
  "auth_middleware requiredToken req =
     (if authorization req = Some (''Bearer '' @ requiredToken) then None
      else Some \<lparr> status = 401, payload = error_envelope (- 32001) ''Unauthorized'' \<rparr>)"

definition app :: "env \<Rightarrow> 'b world \<Rightarrow> 'b request \<Rightarrow> http_state \<Rightarrow> reply \<times> http_state" where
  "app environ W req st =
     (case truthy (environ ''MCP_API_TOKEN'') of
        None \<Rightarrow> router W req st
      | Some requiredToken \<Rightarrow>
          (case auth_middleware requiredToken req of
             Some r \<Rightarrow> (Sent r, st)
           | None \<Rightarrow> router W req st))"

text \<open>
  The state of \<open>startHttpServer\<close> once the middleware and the routes are set up: no
  session, and the warning logged when the middleware was not installed. The start of
  the listener and its log line are left out of the state.
\<close>

definition auth_warning :: string where
  "auth_warning = ''Warning: MCP_API_TOKEN is not set; HTTP transport is running without authentication.''"

definition startHttpServer :: "env \<Rightarrow> http_state" where
  "startHttpServer environ =
     (let st0 = \<lparr> sessions = [], effects = [], next_handle = 0 \<rparr>
      in case truthy (environ ''MCP_API_TOKEN'') of
           None \<Rightarrow> logToFile auth_warning st0
         | Some requiredToken \<Rightarrow> st0)"

subsection \<open>The cleanup closure of the HTTP binding\<close>

text \<open>
  One iteration of \<open>for (const [sessionId, session] of sessions)\<close>: close the
  transport, close the engine, each in its own \<open>try\<close>/\<open>catch\<close> that logs, then
  delete the entry. During either close the library may invoke callbacks of the
  session, \<open>transport.onclose\<close> among them.
\<close>

definition close_session :: "'b world \<Rightarrow> string \<Rightarrow> SessionEntry \<Rightarrow> http_state \<Rightarrow> http_state" where
  "close_session W sessionId session st =
     (let c1 = close_transport W (transport session);
          st1 = perform (TransportClose (transport session)) session c1 st;
          st2 = (case thrown c1 of
                   None \<Rightarrow> st1
                 | Some msg \<Rightarrow>
                     logToFile (''Error closing transport for session '' @ sessionId @ '': '' @ msg) st1);
          c2 = close_server W (server session);
          st3 = perform (ServerClose (server session)) session c2 st2;
          st4 = (case thrown c2 of
                   None \<Rightarrow> st3
                 | Some msg \<Rightarrow>
                     logToFile (''Error closing MCP server for session '' @ sessionId @ '': '' @ msg) st3)
      in sessions_delete sessionId st4)"

text \<open>
  The loop iterates over the live \<open>Map\<close>. Every iteration ends by deleting the key it
  visited, so no entry is left before the position of the iterator: the entry that the
  iterator yields next is the first entry of the \<open>Map\<close> as it is then. An entry that a
  callback deletes before its turn is skipped and an entry that a callback adds is
  visited, so the loop need not end; its result is \<open>None\<close> when it does not.
\<close>

partial_function (option) close_sessions :: "'b world \<Rightarrow> http_state \<Rightarrow> http_state option" where
  "close_sessions W st =
     (case sessions st of
        [] \<Rightarrow> Some st
      | entry # rest \<Rightarrow> close_sessions W (close_session W (fst entry) (snd entry) st))"

text \<open>
  The closure returned by \<open>startHttpServer\<close>. The second component of its result is
  \<open>None\<close> when the promise resolves and \<open>Some error\<close> when \<open>httpServer.close\<close>
  reports an error and the promise rejects.
\<close>

definition cleanup :: "'b world \<Rightarrow> http_state \<Rightarrow> (http_state \<times> string option) option" where
  "cleanup W st =
     (case close_sessions W (logToFile ''Shutting down HTTP server...'' st) of
        None \<Rightarrow> None
      | Some st2 \<Rightarrow> Some (emit ListenerClose st2, close_listener W))"

section \<open>Stdio binding (\<open>startStdioServer\<close>)\<close>

text \<open>
  One engine and one transport (the pair \<open>stdio\<close>), on which the server installs no
  callback. The closure returned closes the transport, then the engine, each in its
  own \<open>try\<close>/\<open>catch\<close> that logs; it always resolves. Its effects, in order:
\<close>

definition stdio_cleanup :: "'b world \<Rightarrow> SessionEntry \<Rightarrow> effect list" where
  "stdio_cleanup W stdio =
     [TransportClose (transport stdio)]
     @ (case thrown (close_transport W (transport stdio)) of
          None \<Rightarrow> []
        | Some msg \<Rightarrow> [Log (''Error closing stdio transport: '' @ msg)])
     @ [ServerClose (server stdio)]
     @ (case thrown (close_server W (server stdio)) of
          None \<Rightarrow> []
        | Some msg \<Rightarrow> [Log (''Error closing MCP server: '' @ msg)])"

section \<open>Process handlers (\<open>setupProcessHandlers\<close>)\<close>

datatype trigger = SIGTERM | SIGINT | UncaughtException | UnhandledRejection

text \<open>The argument each handler passes to \<open>shutdown\<close>.\<close>

fun exitCode :: "trigger \<Rightarrow> int" where
  "exitCode SIGTERM = 0"
| "exitCode SIGINT = 0"
| "exitCode UncaughtException = 1"
| "exitCode UnhandledRejection = 1"

text \<open>
  The state of the process around shutdown: the guard flag, how many times \<open>cleanup\<close>
  has been called, the exit code held by the call of \<open>shutdown\<close> that awaits
  \<open>cleanup\<close>, and the code given to \<open>process.exit\<close> once the process has exited.
\<close>

record process_state =
  shuttingDown :: bool
  cleanup_calls :: nat
  awaiting :: "int option"
  exited :: "int option"

definition running :: process_state where
  "running = \<lparr> shuttingDown = False, cleanup_calls = 0, awaiting = None, exited = None \<rparr>"

text \<open>
  \<open>shutdown(exitCode)\<close> up to its \<open>await\<close>: with the flag set it exits at once with
  its own argument; otherwise it sets the flag and calls \<open>cleanup\<close>.
\<close>

definition shutdown :: "int \<Rightarrow> process_state \<Rightarrow> process_state" where
  "shutdown c p =
     (if shuttingDown p then p\<lparr>exited := Some c\<rparr>
      else p\<lparr>shuttingDown := True, cleanup_calls := Suc (cleanup_calls p), awaiting := Some c\<rparr>)"

text \<open>
  \<open>shutdown\<close> after its \<open>await\<close>: whether \<open>cleanup\<close> resolved or rejected, the
  \<open>finally\<close> block exits with the argument of that call.
\<close>

definition cleanup_settled :: "process_state \<Rightarrow> process_state" where
  "cleanup_settled p = (case awaiting p of None \<Rightarrow> p | Some c \<Rightarrow> p\<lparr>exited := Some c\<rparr>)"

text \<open>
  What can happen to the process: a trigger arrives, or the pending \<open>cleanup\<close>
  settles (\<open>True\<close>: it rejected). Nothing happens to a process that has exited.
\<close>

datatype process_event = Trigger trigger | CleanupSettled bool

fun process_step :: "process_event \<Rightarrow> process_state \<Rightarrow> process_state" where
  "process_step (Trigger t) p = (if exited p \<noteq> None then p else shutdown (exitCode t) p)"
| "process_step (CleanupSettled rejected) p = (if exited p \<noteq> None then p else cleanup_settled p)"

definition process_run :: "process_event list \<Rightarrow> process_state \<Rightarrow> process_state" where
  "process_run evs p = fold process_step evs p"

text \<open>
  \<open>setupProcessHandlers(cleanup)\<close> for a binding with state \<open>'s\<close>: \<open>closure\<close> is the
  cleanup closure of the binding; its result is \<open>None\<close> when it never ends, and otherwise the
  state it leaves and whether it rejected. A trigger is handled as above. When the
  cleanup that a trigger started ends, its effects are part of the state and the
  process exits. The effects of a cleanup that \<open>process.exit\<close> cuts short are not
  recorded.
\<close>

datatype server_event = Triggered trigger | CleanupEnds

fun setupProcessHandlers ::
  "('s \<Rightarrow> ('s \<times> string option) option) \<Rightarrow> server_event \<Rightarrow> process_state \<times> 's
     \<Rightarrow> (process_state \<times> 's) option" where
  "setupProcessHandlers closure (Triggered t) (p, s) = Some (process_step (Trigger t) p, s)"
| "setupProcessHandlers closure CleanupEnds (p, s) =
     (if exited p \<noteq> None \<or> awaiting p = None then Some (p, s)
      else (case closure s of
              None \<Rightarrow> None
            | Some (s', rejection) \<Rightarrow>
                Some (process_step (CleanupSettled (rejection \<noteq> None)) p, s')))"

fun server_run ::
  "('s \<Rightarrow> ('s \<times> string option) option) \<Rightarrow> server_event list \<Rightarrow> process_state \<times> 's
     \<Rightarrow> (process_state \<times> 's) option" where
  "server_run closure [] ps = Some ps"
| "server_run closure (ev # evs) ps =
     (case setupProcessHandlers closure ev ps of
        None \<Rightarrow> None
      | Some ps' \<Rightarrow> server_run closure evs ps')"

section \<open>Startup (\<open>main\<close>)\<close>

text \<open>
  \<open>Number(process.env.PORT ?? process.env.MCP_PORT ?? 8080)\<close>: the value handed to
  \<open>Number\<close> is the string of the first variable that is set (\<open>??\<close> skips only
  \<open>undefined\<close>), or the number 8080.
\<close>

definition port_source :: "env \<Rightarrow> string + nat" where
  "port_source environ =
     (case environ ''PORT'' of
        Some p \<Rightarrow> Inl p
      | None \<Rightarrow> (case environ ''MCP_PORT'' of Some p \<Rightarrow> Inl p | None \<Rightarrow> Inr 8080))"

datatype startup = Exit int | StartHttp | StartStdio

text \<open>
  \<open>main\<close> up to the choice of the transport, without its log lines.
  \<open>initWordPress\<close> is external; its result is \<open>None\<close> when it resolves and
  \<open>Some msg\<close> when it throws. \<open>Exit 1\<close> is \<open>process.exit(1)\<close>.
\<close>

definition main :: "env \<Rightarrow> string option \<Rightarrow> startup" where
  "main environ initWordPress =
     (case truthy (environ ''WORDPRESS_API_URL'') of
        None \<Rightarrow> Exit 1
      | Some url \<Rightarrow>
          (case initWordPress of
             Some msg \<Rightarrow> Exit 1
           | None \<Rightarrow>
               (case truthy (environ ''PORT'') of
                  Some p \<Rightarrow> StartHttp
                | None \<Rightarrow> StartStdio)))"

section \<open>Runs of the HTTP binding\<close>

text \<open>
  What can happen to the HTTP binding between startup and exit: a request arrives, a
  transport invokes one of the callbacks of its session outside of a request, or the
  cleanup closure runs. A request and a cleanup carry the behaviour of the external
  parts during that event. A run has no state when a cleanup in it does not end.
\<close>

datatype 'b event =
    Request "'b world" "'b request"
  | Callback SessionEntry callback
  | Cleanup "'b world"

fun step :: "env \<Rightarrow> 'b event \<Rightarrow> http_state \<Rightarrow> http_state option" where
  "step environ (Request W req) st = Some (snd (app environ W req st))"
| "step environ (Callback session cb) st = Some (run_callback session cb st)"
| "step environ (Cleanup W) st = map_option fst (cleanup W st)"

fun run_from :: "env \<Rightarrow> 'b event list \<Rightarrow> http_state \<Rightarrow> http_state option" where
  "run_from environ [] st = Some st"
| "run_from environ (ev # evs) st =
     (case step environ ev st of
        None \<Rightarrow> None
      | Some st' \<Rightarrow> run_from environ evs st')"

definition run :: "env \<Rightarrow> 'b event list \<Rightarrow> http_state option" where
  "run environ evs = run_from environ evs (startHttpServer environ)"

section \<open>Notions used in the properties\<close>

text \<open>
  The table that a sequence of effects leaves: the writes among them, applied in
  order.
\<close>

fun apply_effect :: "effect \<Rightarrow> session_table \<Rightarrow> session_table" where
  "apply_effect (SessionsSet sessionId entry) table = AList.update sessionId entry table"
| "apply_effect (SessionsDelete sessionId) table = AList.delete sessionId table"
| "apply_effect made table = table"

definition replay :: "effect list \<Rightarrow> session_table \<Rightarrow> session_table" where
  "replay made table = fold apply_effect made table"

definition table_of :: "effect list \<Rightarrow> session_table" where
  "table_of made = replay made []"

text \<open>
  Every \<open>sessions.set\<close> among the effects comes directly after the invocation of
  \<open>onsessioninitialized\<close> with the same id by the transport of the entry. \<open>before\<close>
  is the effect before the first one of the list, if any.
\<close>

fun announced :: "effect option \<Rightarrow> effect list \<Rightarrow> bool" where
  "announced before [] = True"
| "announced before (SessionsSet sessionId entry # made) =
     (before = Some (Invoked (transport entry) (OnSessionInitialized (Some sessionId)))
      \<and> announced (Some (SessionsSet sessionId entry)) made)"
| "announced before (x # made) = announced (Some x) made"

text \<open>
  A transition from one state to another that appends effects, changes the table by
  the writes among them only, and announces every \<open>sessions.set\<close>.
\<close>

definition advances :: "http_state \<Rightarrow> http_state \<Rightarrow> bool" where
  "advances st st' \<longleftrightarrow>
     (\<exists>made. effects st' = effects st @ made
           \<and> sessions st' = replay made (sessions st)
           \<and> announced None made)"

text \<open>The effects added between two states, and the close calls among some effects.\<close>

definition new_effects :: "http_state \<Rightarrow> http_state \<Rightarrow> effect list" where
  "new_effects st st' = drop (length (effects st)) (effects st')"

fun is_close :: "effect \<Rightarrow> bool" where
  "is_close (TransportClose t) = True"
| "is_close (ServerClose s) = True"
| "is_close ListenerClose = True"
| "is_close made = False"

text \<open>
  How many times the callbacks that a call invokes run \<open>transport.onclose\<close>, and with
  it \<open>server.close()\<close>.
\<close>

fun onclose_count :: "callback \<Rightarrow> nat"
  and onclose_counts :: "callback list \<Rightarrow> nat" where
  "onclose_count (OnSessionInitialized v) = 0"
| "onclose_count (OnSessionClosed v) = 0"
| "onclose_count (OnClose v (Call cbs failure)) = Suc (onclose_counts cbs)"
| "onclose_counts [] = 0"
| "onclose_counts (cb # cbs) = onclose_count cb + onclose_counts cbs"

text \<open>
  The callbacks concern the session with the given id only, and none of them publishes
  a session: an id they delete is that id, and an id they report as initialized is
  falsy.
\<close>

fun concerns :: "string \<Rightarrow> callback \<Rightarrow> bool"
  and concern :: "string \<Rightarrow> callback list \<Rightarrow> bool" where
  "concerns sessionId (OnSessionInitialized v) = (truthy v = None)"
| "concerns sessionId (OnSessionClosed v) = (truthy v = None \<or> v = Some sessionId)"
| "concerns sessionId (OnClose v (Call cbs failure)) =
     ((truthy v = None \<or> v = Some sessionId) \<and> concern sessionId cbs)"
| "concern sessionId [] = True"
| "concern sessionId (cb # cbs) = (concerns sessionId cb \<and> concern sessionId cbs)"

text \<open>
  While the sessions of a table are closed, the callbacks that the library invokes
  during the close calls of a session concern that session only.
\<close>

definition closes_concern_own_session :: "'b world \<Rightarrow> session_table \<Rightarrow> bool" where
  "closes_concern_own_session W table =
     list_all (\<lambda>(sessionId, session).
                 concern sessionId (fired (close_transport W (transport session)))
                 \<and> concern sessionId (fired (close_server W (server session)))) table"

text \<open>
  The close calls of the cleanup loop on a table: for each entry the transport is
  closed, then the engine, once by the loop and once by every run of
  \<open>transport.onclose\<close>.
\<close>

definition close_calls :: "'b world \<Rightarrow> session_table \<Rightarrow> effect list" where
  "close_calls W table =
     concat (map (\<lambda>(sessionId, session).
                    TransportClose (transport session)
                    # replicate (Suc (onclose_counts (fired (close_transport W (transport session)))
                                      + onclose_counts (fired (close_server W (server session)))))
                        (ServerClose (server session))) table)"

section \<open>Example inputs\<close>

text \<open>
  An external world in which nothing fails and no callback is invoked; the request body
  is reduced to whether it is an initialize request.
\<close>

definition quiet :: "bool world" where
  "quiet = \<lparr> isInitializeRequest = (\<lambda>b. b),
             connect = (\<lambda>s t. Call [] None),
             handleRequest = (\<lambda>t req. Call [] None),
             headersSent = (\<lambda>t req. False),
             close_transport = (\<lambda>t. Call [] None),
             close_server = (\<lambda>s. Call [] None),
             close_listener = None \<rparr>"

definition plain_request :: "http_method \<Rightarrow> route \<Rightarrow> bool request" where
  "plain_request m r =
     \<lparr> req_method = m, path = r, authorization = None, mcp_session_id = None, body = False \<rparr>"

definition base_env :: env where
  "base_env = [''WORDPRESS_API_URL'' \<mapsto> ''https://example.org/wp-json'']"

text \<open>
  A world in which every call of \<open>handleRequest\<close> makes the transport report the given
  session id as initialized. A world in which closing a transport runs
  \<open>transport.onclose\<close> with the id of its session (the ids of \<open>three_sessions\<close>), and
  in which closing the transport with handle 3 and the engine with handle 2 fails.
\<close>

definition announcing :: "string \<Rightarrow> bool world" where
  "announcing sessionId =
     quiet\<lparr>handleRequest := (\<lambda>t req. Call [OnSessionInitialized (Some sessionId)] None),
           headersSent := (\<lambda>t req. True)\<rparr>"

definition flaky :: "bool world" where
  "flaky =
     quiet\<lparr>close_transport :=
             (\<lambda>t. if t = 1 then Call [OnClose (Some ''a'') (Call [] None)] None
                  else if t = 3 then Call [OnClose (Some ''b'') (Call [] (Some ''bang''))] (Some ''boom'')
                  else Call [OnClose (Some ''c'') (Call [] None)] None),
           close_server := (\<lambda>s. if s = 2 then Call [] (Some ''bang'') else Call [] None)\<rparr>"

definition three_sessions :: http_state where
  "three_sessions =
     \<lparr> sessions = [(''a'', \<lparr> server = 0, transport = 1 \<rparr>),
                   (''b'', \<lparr> server = 2, transport = 3 \<rparr>),
                   (''c'', \<lparr> server = 4, transport = 5 \<rparr>)],
       effects = [], next_handle = 6 \<rparr>"

text \<open>
  An initialize request without a session id, and the state of the binding after one
  such request whose transport reports the id \<open>abc\<close>.
\<close>

definition initialize_request :: "bool request" where
  "initialize_request = (plain_request POST Mcp)\<lparr>body := True\<rparr>"

definition published_abc :: http_state where
  "published_abc =
     \<lparr> sessions = [(''abc'', \<lparr> server = 0, transport = 1 \<rparr>)],
       effects = [Log auth_warning, Connect 0 1, HandleRequest 1,
                  Invoked 1 (OnSessionInitialized (Some ''abc'')),
                  SessionsSet ''abc'' \<lparr> server = 0, transport = 1 \<rparr>,
                  Log ''Initialized MCP session abc''],
       next_handle = 2 \<rparr>"

section \<open>Properties of the tool adapter\<close>

text \<open>
  C9. When the external handler resolves with a sequence of content items and an error
  flag, the wrapped handler resolves with as many items, in the same order, each with
  the \<open>text\<close> field and every further field of the input item unchanged and its
  \<open>type\<close> set to \<open>'text'\<close>, and with the same error flag.
\<close>

theorem wrappedHandler_retags:
  assumes "handler args = Inr result"
  shows "\<exists>out. wrappedHandler handler args = Inr out
           \<and> length (content out) = length (content result)
           \<and> map text (content out) = map text (content result)
           \<and> map item.more (content out) = map item.more (content result)
           \<and> map type (content out) = replicate (length (content result)) ''text''
           \<and> isError out = isError result"
  using assms by (simp add: wrappedHandler_def comp_def map_replicate_const)

theorem wrappedHandler_retags_witness:
  "\<exists>out. wrappedHandler
            (\<lambda>u :: unit. Inr \<lparr> content = [\<lparr> type = ''image'', text = ''a'', \<dots> = (7 :: nat) \<rparr>,
                                            \<lparr> type = ''resource'', text = ''b'', \<dots> = 9 \<rparr>],
                                 isError = True \<rparr> :: string + nat toolResult) ()
          = Inr out
      \<and> content out = [\<lparr> type = ''text'', text = ''a'', \<dots> = 7 \<rparr>,
                       \<lparr> type = ''text'', text = ''b'', \<dots> = 9 \<rparr>]
      \<and> isError out = True"
  using wrappedHandler_retags
    [of "\<lambda>u :: unit. Inr \<lparr> content = [\<lparr> type = ''image'', text = ''a'', \<dots> = (7 :: nat) \<rparr>,
                                        \<lparr> type = ''resource'', text = ''b'', \<dots> = 9 \<rparr>],
                             isError = True \<rparr> :: string + nat toolResult" "()"]
  by (simp add: wrappedHandler_def)

section \<open>Properties of startup\<close>

text \<open>
  C3. With \<open>MCP_PORT\<close> set and \<open>PORT\<close> unset, \<open>main\<close> starts the stdio transport,
  although the port resolution of \<open>startHttpServer\<close> would take its port from
  \<open>MCP_PORT\<close>: the presence of \<open>MCP_PORT\<close> alone does not select the HTTP transport.
\<close>

theorem main_ignores_MCP_PORT:
  "main (base_env(''MCP_PORT'' \<mapsto> ''3000'')) None = StartStdio
   \<and> port_source (base_env(''MCP_PORT'' \<mapsto> ''3000'')) = Inl ''3000''"
  by (simp add: main_def port_source_def base_env_def truthy_def)

section \<open>Properties of the authorization middleware\<close>

text \<open>
  C1, as the code has it. When a non-empty \<open>MCP_API_TOKEN\<close> is configured, every
  request that reaches the authorization middleware (a GET, POST or DELETE request that
  the body parser and CORS have passed on), whatever its route, is answered by the
  router only if its \<open>Authorization\<close> header is exactly \<open>Bearer\<close>, a space and the
  token; any other such request is answered 401 with the error code -32001 and the
  state is untouched. The router answers \<open>GET /healthz\<close> and \<open>GET /\<close> with 200 and
  the body \<open>ok\<close>.
\<close>

theorem auth_gate_covers_every_route:
  assumes "environ ''MCP_API_TOKEN'' = Some token" and "token \<noteq> []"
  shows "app environ W req st =
           (if authorization req = Some (''Bearer '' @ token) then router W req st
            else (Sent \<lparr> status = 401, payload = error_envelope (- 32001) ''Unauthorized'' \<rparr>, st))
         \<and> router W (req\<lparr>req_method := GET, path := Healthz\<rparr>) st
             = (Sent \<lparr> status = 200, payload = Text ''ok'' \<rparr>, st)
         \<and> router W (req\<lparr>req_method := GET, path := Root\<rparr>) st
             = (Sent \<lparr> status = 200, payload = Text ''ok'' \<rparr>, st)"
  using assms by (simp add: app_def truthy_def auth_middleware_def router_def ok_handler_def)

theorem auth_gate_covers_every_route_witness:
  "app (base_env(''MCP_API_TOKEN'' \<mapsto> ''secret'')) quiet
       ((plain_request GET Healthz)\<lparr>authorization := Some ''Bearer secret''\<rparr>) three_sessions
     = (Sent \<lparr> status = 200, payload = Text ''ok'' \<rparr>, three_sessions)
   \<and> app (base_env(''MCP_API_TOKEN'' \<mapsto> ''secret'')) quiet
       ((plain_request POST Mcp)\<lparr>authorization := Some ''Bearer wrong''\<rparr>) three_sessions
     = (Sent \<lparr> status = 401, payload = error_envelope (- 32001) ''Unauthorized'' \<rparr>, three_sessions)"
  using auth_gate_covers_every_route
      [of "base_env(''MCP_API_TOKEN'' \<mapsto> ''secret'')" "''secret''" quiet
          "(plain_request GET Healthz)\<lparr>authorization := Some ''Bearer secret''\<rparr>" three_sessions]
    auth_gate_covers_every_route
      [of "base_env(''MCP_API_TOKEN'' \<mapsto> ''secret'')" "''secret''" quiet
          "(plain_request POST Mcp)\<lparr>authorization := Some ''Bearer wrong''\<rparr>" three_sessions]
  by (simp add: plain_request_def)

text \<open>
  C1, as stated, fails: with the token \<open>secret\<close> configured, \<open>GET /healthz\<close> and
  \<open>GET /\<close> without an \<open>Authorization\<close> header are answered 401, not 200.
\<close>

theorem healthz_without_token_unauthorized:
  "fst (app (base_env(''MCP_API_TOKEN'' \<mapsto> ''secret'')) quiet (plain_request GET Healthz)
          (startHttpServer (base_env(''MCP_API_TOKEN'' \<mapsto> ''secret''))))
     = Sent \<lparr> status = 401, payload = error_envelope (- 32001) ''Unauthorized'' \<rparr>
   \<and> fst (app (base_env(''MCP_API_TOKEN'' \<mapsto> ''secret'')) quiet (plain_request GET Root)
          (startHttpServer (base_env(''MCP_API_TOKEN'' \<mapsto> ''secret''))))
     = Sent \<lparr> status = 401, payload = error_envelope (- 32001) ''Unauthorized'' \<rparr>"
  by (simp add: app_def base_env_def truthy_def auth_middleware_def plain_request_def)

text \<open>
  C2, as the code has it. The middleware is absent, and the warning is logged at
  startup, when \<open>MCP_API_TOKEN\<close> is unset and also when it is the empty string; it
  is installed, without a warning, for every non-empty token.
\<close>

theorem gate_enabled_iff_token_nonempty:
  "app environ W req st =
     (case environ ''MCP_API_TOKEN'' of
        None \<Rightarrow> router W req st
      | Some token \<Rightarrow>
          if token = [] then router W req st
          else if authorization req = Some (''Bearer '' @ token) then router W req st
          else (Sent \<lparr> status = 401, payload = error_envelope (- 32001) ''Unauthorized'' \<rparr>, st))
   \<and> effects (startHttpServer environ) =
       (case environ ''MCP_API_TOKEN'' of
          None \<Rightarrow> [Log auth_warning]
        | Some token \<Rightarrow> if token = [] then [Log auth_warning] else [])"
  by (simp add: app_def truthy_def auth_middleware_def startHttpServer_def logToFile_def emit_def
      split: option.splits)

text \<open>
  C2, as stated, fails: with \<open>MCP_API_TOKEN\<close> set to the empty string, a POST to
  \<open>/mcp\<close> without an \<open>Authorization\<close> header reaches the router (which answers 400,
  the body being no initialize request), and the startup warning is logged.
\<close>

theorem empty_token_not_enforced:
  "fst (app (base_env(''MCP_API_TOKEN'' \<mapsto> [])) quiet (plain_request POST Mcp)
          (startHttpServer (base_env(''MCP_API_TOKEN'' \<mapsto> []))))
     = Sent \<lparr> status = 400,
              payload = error_envelope (- 32600)
                ''Initialization request required before other operations'' \<rparr>
   \<and> effects (startHttpServer (base_env(''MCP_API_TOKEN'' \<mapsto> []))) = [Log auth_warning]"
  by (simp add: app_def base_env_def truthy_def router_def plain_request_def post_mcp_def
      quiet_def startHttpServer_def logToFile_def emit_def)

section \<open>The effects and the table along a transition\<close>

lemma truthy_Some: "truthy v = Some s \<Longrightarrow> v = Some s"
  by (auto simp add: truthy_def split: option.splits if_splits)

lemma announced_append:
  "announced b (xs @ ys)
   = (announced b xs \<and> announced (if xs = [] then b else Some (last xs)) ys)"
proof (induction xs arbitrary: b)
  case Nil
  show ?case by simp
next
  case (Cons x xs)
  show ?case by (cases x) (simp_all add: Cons.IH)
qed

lemma announced_None: "announced None xs \<Longrightarrow> announced b xs"
proof (cases xs)
  case Nil
  then show ?thesis by simp
next
  case (Cons x ys)
  assume "announced None xs"
  then show ?thesis using Cons by (cases x) simp_all
qed

lemma replay_append: "replay (xs @ ys) table = replay ys (replay xs table)"
  by (simp add: replay_def)

lemma advances_refl: "advances st st"
  by (simp add: advances_def replay_def)

lemma advances_trans:
  assumes "advances st st'" and "advances st' st''"
  shows "advances st st''"
proof -
  obtain m1 where 1: "effects st' = effects st @ m1" "sessions st' = replay m1 (sessions st)"
    "announced None m1"
    using assms(1) by (auto simp add: advances_def)
  obtain m2 where 2: "effects st'' = effects st' @ m2" "sessions st'' = replay m2 (sessions st')"
    "announced None m2"
    using assms(2) by (auto simp add: advances_def)
  have "announced None (m1 @ m2)"
    using 1(3) 2(3) by (simp add: announced_append announced_None)
  moreover have "effects st'' = effects st @ (m1 @ m2)"
    using 1(1) 2(1) by simp
  moreover have "sessions st'' = replay (m1 @ m2) (sessions st)"
    using 1(2) 2(2) by (simp add: replay_append)
  ultimately show ?thesis
    unfolding advances_def by blast
qed

lemma advances_same:
  "effects st' = effects st \<Longrightarrow> sessions st' = sessions st \<Longrightarrow> advances st st'"
  by (simp add: advances_def replay_def)

lemma advances_made:
  "effects st' = effects st @ made \<Longrightarrow> sessions st' = replay made (sessions st)
   \<Longrightarrow> announced None made \<Longrightarrow> advances st st'"
  unfolding advances_def by blast

lemma advances_emit:
  assumes "\<And>table. apply_effect made table = table" and "announced None [made]"
  shows "advances st (emit made st)"
  by (rule advances_made [where made = "[made]"]) (simp_all add: emit_def replay_def assms)

lemma advances_logToFile: "advances st (logToFile msg st)"
  unfolding logToFile_def by (rule advances_emit) simp_all

lemma advances_case_log:
  "advances st st2
   \<Longrightarrow> advances st (case failure of None \<Rightarrow> st2 | Some msg \<Rightarrow> logToFile (line msg) st2)"
  by (cases failure) (auto intro: advances_trans advances_logToFile)

lemma advances_sessions_delete: "advances st (sessions_delete k st)"
  by (rule advances_made [where made = "[SessionsDelete k]"])
     (simp_all add: sessions_delete_def emit_def replay_def)

lemma advances_initialized:
  assumes "k \<noteq> []"
  shows "advances st (run_callback e (OnSessionInitialized (Some k)) st)"
  by (rule advances_made
        [where made = "[Invoked (transport e) (OnSessionInitialized (Some k)), SessionsSet k e,
                        Log (''Initialized MCP session '' @ k)]"])
     (simp_all add: assms truthy_def Let_def logToFile_def sessions_set_def emit_def replay_def)

lemma advances_run_callback:
  "advances st (run_callback e cb st)"
  "advances st (run_callbacks e cbs st)"
proof (induction e cb st and e cbs st rule: run_callback_run_callbacks.induct)
  case (1 e v st)
  show ?case
  proof (cases "truthy v")
    case None
    then show ?thesis by (simp add: advances_emit)
  next
    case (Some k)
    then have "v = Some k" and "k \<noteq> []"
      by (auto simp add: truthy_def split: option.splits if_splits)
    then show ?thesis using advances_initialized by blast
  qed
next
  case (2 e v st)
  let ?st0 = "emit (Invoked (transport e) (OnSessionClosed v)) st"
  have 0: "advances st ?st0" by (simp add: advances_emit)
  show ?case
  proof (cases "truthy v")
    case None
    then show ?thesis using 0 by simp
  next
    case (Some k)
    have "advances ?st0 (logToFile (''Closed MCP session '' @ k) (sessions_delete k ?st0))"
      using advances_sessions_delete advances_logToFile advances_trans by blast
    then have "advances st (logToFile (''Closed MCP session '' @ k) (sessions_delete k ?st0))"
      using 0 advances_trans by blast
    then show ?thesis using Some by simp
  qed
next
  case (3 e v cbs failure st)
  let ?st0 = "emit (Invoked (transport e) (OnClose v (Call cbs failure))) st"
  let ?st1 = "case truthy v of None \<Rightarrow> ?st0 | Some sessionId \<Rightarrow> sessions_delete sessionId ?st0"
  let ?st1' = "emit (ServerClose (server e)) ?st1"
  let ?st2 = "run_callbacks e cbs ?st1'"
  have 0: "advances st ?st0" by (simp add: advances_emit)
  have 1: "advances ?st0 ?st1"
    by (cases "truthy v") (simp_all add: advances_refl advances_sessions_delete)
  have s1: "advances ?st1 ?st1'" by (simp add: advances_emit)
  have 2: "advances ?st1' ?st2" using "3.IH" by simp
  have s2: "advances st ?st2"
    using 0 1 s1 2 advances_trans by blast
  show ?case
    by (simp only: run_callback.simps Let_def) (rule advances_case_log [OF s2])
next
  case (4 e st)
  show ?case by (simp add: advances_refl)
next
  case (5 e cb cbs st)
  then have "advances st (run_callbacks e cbs (run_callback e cb st))"
    using advances_trans by blast
  then show ?case by simp
qed


lemma advances_perform:
  assumes "\<And>table. apply_effect made table = table" and "announced None [made]"
  shows "advances st (perform made session c st)"
  unfolding perform_def
  using advances_emit [OF assms] advances_run_callback(2) advances_trans by blast

lemma advances_forward: "advances st (snd (forward W session req st))"
  by (simp add: forward_def Let_def advances_perform)

lemma advances_post_catch: "advances st (snd (post_catch msg sent h st))"
  by (simp add: post_catch_def Let_def advances_logToFile)

lemma advances_post_forward: "advances st (snd (post_forward W session req st))"
proof -
  obtain c st1 where f: "forward W session req st = (c, st1)"
    by (cases "forward W session req st")
  have 1: "advances st st1"
    using advances_forward [of st W session req] f by simp
  show ?thesis
    using f 1 advances_trans [OF 1 advances_post_catch]
    by (cases "thrown c") (simp_all add: post_forward_def)
qed

lemma advances_post_initialize: "advances st (snd (post_initialize W req st))"
proof -
  obtain session st1 where c: "createSession st = (session, st1)"
    by (cases "createSession st")
  then have 1: "advances st st1"
    by (auto simp add: createSession_def intro: advances_same)
  let ?c = "connect W (server session) (transport session)"
  let ?st2 = "perform (Connect (server session) (transport session)) session ?c st1"
  have "advances st1 ?st2"
    by (simp add: advances_perform)
  then have 2: "advances st ?st2"
    using 1 advances_trans by blast
  show ?thesis
  proof (cases "thrown ?c")
    case None
    then have "post_initialize W req st = post_forward W session req ?st2"
      using c by (simp add: post_initialize_def Let_def)
    then show ?thesis
      using advances_trans [OF 2 advances_post_forward] by simp
  next
    case (Some msg)
    then have "post_initialize W req st = post_catch msg False (transport session) ?st2"
      using c by (simp add: post_initialize_def Let_def)
    then show ?thesis
      using advances_trans [OF 2 advances_post_catch] by simp
  qed
qed

lemma advances_post_mcp: "advances st (snd (post_mcp W req st))"
  by (simp add: post_mcp_def advances_refl advances_post_forward advances_post_initialize
      split: option.splits)

lemma advances_stream_mcp: "advances st (snd (stream_mcp verb W req st))"
proof (cases "truthy (getSessionId (mcp_session_id req))")
  case None
  then show ?thesis by (simp add: stream_mcp_def advances_refl)
next
  case (Some sessionId)
  note sid = this
  show ?thesis
  proof (cases "ensureSession st sessionId")
    case None
    then show ?thesis using sid by (simp add: stream_mcp_def advances_refl)
  next
    case (Some session)
    obtain c st1 where f: "forward W session req st = (c, st1)"
      by (cases "forward W session req st")
    have 1: "advances st st1"
      using advances_forward [of st W session req] f by simp
    show ?thesis
      using f Some sid 1 advances_trans [OF 1 advances_logToFile]
      by (cases "thrown c") (simp_all add: stream_mcp_def Let_def)
  qed
qed

lemma advances_router: "advances st (snd (router W req st))"
  by (simp add: router_def ok_handler_def get_mcp_def delete_mcp_def advances_refl
      advances_post_mcp advances_stream_mcp)

lemma advances_app: "advances st (snd (app environ W req st))"
  by (simp add: app_def advances_refl advances_router split: option.splits)

lemma advances_close_session: "advances st (close_session W sessionId session st)"
proof -
  let ?c1 = "close_transport W (transport session)"
  let ?st1 = "perform (TransportClose (transport session)) session ?c1 st"
  let ?st2 = "case thrown ?c1 of None \<Rightarrow> ?st1
              | Some msg \<Rightarrow> logToFile (''Error closing transport for session '' @ sessionId @ '': '' @ msg) ?st1"
  let ?c2 = "close_server W (server session)"
  let ?st3 = "perform (ServerClose (server session)) session ?c2 ?st2"
  let ?st4 = "case thrown ?c2 of None \<Rightarrow> ?st3
              | Some msg \<Rightarrow> logToFile (''Error closing MCP server for session '' @ sessionId @ '': '' @ msg) ?st3"
  have 1: "advances st ?st1" by (simp add: advances_perform)
  have 2: "advances st ?st2" by (rule advances_case_log [OF 1])
  have "advances ?st2 ?st3" by (simp add: advances_perform)
  then have 3: "advances st ?st3" using 2 advances_trans by blast
  have 4: "advances st ?st4" by (rule advances_case_log [OF 3])
  have "advances st (sessions_delete sessionId ?st4)"
    using 4 advances_sessions_delete advances_trans by blast
  then show ?thesis
    by (simp only: close_session_def Let_def)
qed

lemma advances_close_sessions:
  assumes returns: "close_sessions W st = Some st'"
  shows "advances st st'"
proof (rule close_sessions.raw_induct [where P = "\<lambda>W st st'. advances st st'", OF _ returns])
  fix f and W :: "'a world" and st st'
  assume IH: "\<And>W st st'. f W st = Some st' \<Longrightarrow> advances st st'"
    and eq: "(case sessions st of
                [] \<Rightarrow> Some st
              | entry # rest \<Rightarrow> f W (close_session W (fst entry) (snd entry) st)) = Some st'"
  show "advances st st'"
  proof (cases "sessions st")
    case Nil
    then show ?thesis using eq by (simp add: advances_refl)
  next
    case (Cons entry rest)
    then have "f W (close_session W (fst entry) (snd entry) st) = Some st'"
      using eq by simp
    then have "advances (close_session W (fst entry) (snd entry) st) st'"
      by (rule IH)
    then show ?thesis
      using advances_close_session advances_trans by blast
  qed
qed

lemma advances_cleanup: "cleanup W st = Some (st', r) \<Longrightarrow> advances st st'"
proof -
  assume c: "cleanup W st = Some (st', r)"
  let ?st1 = "logToFile ''Shutting down HTTP server...'' st"
  obtain st2 where 2: "close_sessions W ?st1 = Some st2" and s: "st' = emit ListenerClose st2"
    using c by (auto simp add: cleanup_def split: option.splits)
  have "advances st ?st1" by (rule advances_logToFile)
  moreover have "advances ?st1 st2" using 2 by (rule advances_close_sessions)
  moreover have "advances st2 st'" unfolding s by (simp add: advances_emit)
  ultimately show ?thesis using advances_trans by blast
qed

lemma advances_step: "step environ ev st = Some st' \<Longrightarrow> advances st st'"
proof (cases ev)
  case (Request W req)
  assume "step environ ev st = Some st'"
  then show ?thesis using Request advances_app [of st environ W req] by auto
next
  case (Callback session cb)
  assume "step environ ev st = Some st'"
  then show ?thesis using Callback advances_run_callback(1) [of st session cb] by auto
next
  case (Cleanup W)
  assume "step environ ev st = Some st'"
  then show ?thesis using Cleanup advances_cleanup [of W st st'] by auto
qed

lemma advances_run_from: "run_from environ evs st = Some st' \<Longrightarrow> advances st st'"
proof (induction evs arbitrary: st)
  case Nil
  then show ?case by (simp add: advances_refl)
next
  case (Cons ev evs)
  then obtain st1 where 1: "step environ ev st = Some st1" and 2: "run_from environ evs st1 = Some st'"
    by (auto split: option.splits)
  show ?case
    using advances_step [OF 1] Cons.IH [OF 2] advances_trans by blast
qed

lemma distinct_replay:
  "distinct (map fst table) \<Longrightarrow> distinct (map fst (replay made table))"
proof (induction made arbitrary: table)
  case Nil
  then show ?case by (simp add: replay_def)
next
  case (Cons x made)
  have "distinct (map fst (apply_effect x table))"
    using Cons.prems by (cases x) (simp_all add: distinct_update distinct_delete)
  then show ?case
    using Cons.IH by (simp add: replay_def)
qed

lemma announced_before_set:
  assumes "announced None (made @ SessionsSet sessionId entry # rest)"
  shows "made \<noteq> [] \<and> last made = Invoked (transport entry) (OnSessionInitialized (Some sessionId))"
  using assms by (auto simp add: announced_append split: if_splits)

lemma announced_take: "announced None made \<Longrightarrow> announced None (take n made)"
  using announced_append [of None "take n made" "drop n made"] by simp

lemma keys_apply_effect:
  "k \<in> fst ` set (apply_effect x table)
   \<Longrightarrow> k \<in> fst ` set table \<or> (\<exists>entry. x = SessionsSet k entry)"
proof (cases x)
  case (SessionsSet k' entry)
  assume "k \<in> fst ` set (apply_effect x table)"
  then show ?thesis using SessionsSet by (auto simp add: dom_update)
next
  case (SessionsDelete k')
  assume "k \<in> fst ` set (apply_effect x table)"
  then show ?thesis using SessionsDelete dom_delete_subset [of k' table] by auto
qed simp_all

lemma announced_table_of:
  "announced None made \<Longrightarrow> k \<in> fst ` set (table_of made)
   \<Longrightarrow> \<exists>t. Invoked t (OnSessionInitialized (Some k)) \<in> set made"
proof (induction made arbitrary: k rule: rev_induct)
  case Nil
  then show ?case by (simp add: table_of_def replay_def)
next
  case (snoc x made)
  have a: "announced None made"
    using snoc.prems(1) by (simp add: announced_append)
  have t: "table_of (made @ [x]) = apply_effect x (table_of made)"
    by (simp add: table_of_def replay_def)
  show ?case
  proof (cases "k \<in> fst ` set (table_of made)")
    case True
    then show ?thesis using snoc.IH [OF a] by auto
  next
    case False
    then have "\<exists>entry. x = SessionsSet k entry"
      using snoc.prems(2) keys_apply_effect [of k x "table_of made"] unfolding t by blast
    then obtain entry where x: "x = SessionsSet k entry" by blast
    then have "made \<noteq> [] \<and> last made = Invoked (transport entry) (OnSessionInitialized (Some k))"
      using snoc.prems(1) announced_before_set [of made k entry "[]"] by simp
    then have "Invoked (transport entry) (OnSessionInitialized (Some k)) \<in> set made"
      using last_in_set by metis
    then show ?thesis by auto
  qed
qed

lemma run_shape:
  assumes "run environ evs = Some st"
  shows "sessions st = table_of (effects st) \<and> announced None (effects st)"
proof -
  let ?st0 = "startHttpServer environ"
  have 0: "sessions ?st0 = [] \<and> announced None (effects ?st0)
           \<and> replay (effects ?st0) [] = []"
    by (simp add: startHttpServer_def Let_def logToFile_def emit_def replay_def split: option.splits)
  obtain made where m: "effects st = effects ?st0 @ made"
    "sessions st = replay made (sessions ?st0)" "announced None made"
    using advances_run_from [of environ evs ?st0 st] assms
    by (auto simp add: run_def advances_def)
  have "table_of (effects st) = replay made []"
    using 0 m(1) by (simp add: table_of_def replay_append)
  moreover have "announced None (effects st)"
    using 0 m(1) m(3) by (simp add: announced_append announced_None)
  ultimately show ?thesis using 0 m(2) by simp
qed

section \<open>Properties of the router\<close>

text \<open>
  C4, as the code has it. A request on \<open>/mcp\<close> that reaches the router with a session
  id absent from the table is answered 404 and leaves the state as it was; the body of
  the answer is the JSON-RPC error envelope with code -32000 for POST, and the plain
  text \<open>Unknown session ID\<close> for GET and DELETE.
\<close>

theorem unknown_session_rejected:
  assumes "path req = Mcp"
    and "truthy (getSessionId (mcp_session_id req)) = Some sessionId"
    and "ensureSession st sessionId = None"
  shows "router W req st =
           (Sent \<lparr> status = 404,
                   payload = (case req_method req of
                                POST \<Rightarrow> error_envelope (- 32000) ''Unknown session ID''
                              | GET \<Rightarrow> Text ''Unknown session ID''
                              | DELETE \<Rightarrow> Text ''Unknown session ID'') \<rparr>, st)"
  using assms
  by (cases "req_method req")
     (simp_all add: router_def post_mcp_def get_mcp_def delete_mcp_def stream_mcp_def)

theorem unknown_session_rejected_witness:
  "router quiet ((plain_request POST Mcp)\<lparr>mcp_session_id := Some (Single ''abc'')\<rparr>) three_sessions
     = (Sent \<lparr> status = 404,
               payload = Json \<lparr> jsonrpc = ''2.0'', code = - 32000,
                                message = ''Unknown session ID'', rpc_id = None \<rparr> \<rparr>,
        three_sessions)"
  using unknown_session_rejected
      [of "(plain_request POST Mcp)\<lparr>mcp_session_id := Some (Single ''abc'')\<rparr>"
          "''abc''" three_sessions quiet]
  by (simp add: plain_request_def truthy_def ensureSession_def three_sessions_def error_envelope_def)

text \<open>
  C4, as stated, fails: \<open>GET /mcp\<close> and \<open>DELETE /mcp\<close> with the unknown session id
  \<open>abc\<close> are answered 404 with a plain-text body, which is no JSON-RPC envelope.
\<close>

theorem unknown_session_get_is_plain_text:
  "fst (router quiet ((plain_request GET Mcp)\<lparr>mcp_session_id := Some (Single ''abc'')\<rparr>)
          (startHttpServer base_env))
     = Sent \<lparr> status = 404, payload = Text ''Unknown session ID'' \<rparr>
   \<and> fst (router quiet ((plain_request DELETE Mcp)\<lparr>mcp_session_id := Some (Single ''abc'')\<rparr>)
          (startHttpServer base_env))
     = Sent \<lparr> status = 404, payload = Text ''Unknown session ID'' \<rparr>
   \<and> Text ''Unknown session ID'' \<noteq> error_envelope (- 32000) ''Unknown session ID''"
  by (simp add: router_def plain_request_def get_mcp_def delete_mcp_def stream_mcp_def truthy_def
      ensureSession_def startHttpServer_def base_env_def logToFile_def emit_def error_envelope_def)

text \<open>
  C8. A POST to \<open>/mcp\<close> without a session id whose body is not an initialize request
  is answered by the router with 400 and the error code -32600, and the state after it
  is the state before it; the state is also unchanged when the authorization
  middleware answers in the router's place.
\<close>

theorem non_initialize_without_session_rejected:
  assumes "req_method req = POST" and "path req = Mcp"
    and "truthy (getSessionId (mcp_session_id req)) = None"
    and "\<not> isInitializeRequest W (body req)"
  shows "router W req st =
           (Sent \<lparr> status = 400,
                   payload = error_envelope (- 32600)
                     ''Initialization request required before other operations'' \<rparr>, st)
         \<and> snd (app environ W req st) = st"
  using assms
  by (simp add: router_def post_mcp_def app_def split: option.splits)

theorem non_initialize_without_session_rejected_witness:
  "router quiet (plain_request POST Mcp) three_sessions =
     (Sent \<lparr> status = 400,
             payload = Json \<lparr> jsonrpc = ''2.0'', code = - 32600,
                              message = ''Initialization request required before other operations'',
                              rpc_id = None \<rparr> \<rparr>, three_sessions)
   \<and> snd (app base_env quiet (plain_request POST Mcp) three_sessions) = three_sessions"
  using non_initialize_without_session_rejected
      [of "plain_request POST Mcp" quiet three_sessions base_env]
  by (simp add: plain_request_def truthy_def quiet_def error_envelope_def)

lemma next_handle_emit: "next_handle (emit made st) = next_handle st"
  by (simp add: emit_def)

lemma next_handle_logToFile: "next_handle (logToFile msg st) = next_handle st"
  by (simp add: logToFile_def next_handle_emit)

lemma next_handle_run_callback:
  "next_handle (run_callback e cb st) = next_handle st"
  "next_handle (run_callbacks e cbs st) = next_handle st"
proof (induction e cb st and e cbs st rule: run_callback_run_callbacks.induct)
  case (1 e v st)
  show ?case
    by (cases "truthy v")
       (simp_all add: Let_def next_handle_emit next_handle_logToFile sessions_set_def)
next
  case (2 e v st)
  show ?case
    by (cases "truthy v")
       (simp_all add: Let_def next_handle_emit next_handle_logToFile sessions_delete_def)
next
  case (3 e v cbs failure st)
  show ?case
    by (cases "truthy v"; cases failure)
       (simp_all add: Let_def "3.IH" next_handle_emit next_handle_logToFile sessions_delete_def)
next
  case (4 e st)
  show ?case by simp
next
  case (5 e cb cbs st)
  then show ?case by simp
qed

lemma next_handle_perform: "next_handle (perform made session c st) = next_handle st"
  by (simp add: perform_def next_handle_run_callback(2) next_handle_emit)

lemma next_handle_post_catch: "next_handle (snd (post_catch msg sent h st)) = next_handle st"
  by (simp add: post_catch_def Let_def next_handle_logToFile)

lemma next_handle_post_forward:
  "next_handle (snd (post_forward W session req st)) = next_handle st"
  by (cases "thrown (handleRequest W (transport session) req)")
     (simp_all add: post_forward_def forward_def Let_def next_handle_post_catch next_handle_perform)

lemma grows_run_callbacks: "\<exists>more. effects (run_callbacks e cbs st) = effects st @ more"
  using advances_run_callback(2) [of st e cbs] by (auto simp add: advances_def)

lemma grows_perform:
  "\<exists>more. effects (perform made session c st) = effects st @ made # more"
  using grows_run_callbacks [of session "fired c" "emit made st"]
  by (auto simp add: perform_def emit_def)

lemma grows_post_catch: "\<exists>more. effects (snd (post_catch msg sent h st)) = effects st @ more"
  by (simp add: post_catch_def Let_def logToFile_def emit_def)

lemma grows_post_forward:
  "\<exists>more. effects (snd (post_forward W session req st))
            = effects st @ HandleRequest (transport session) # more"
proof -
  let ?c = "handleRequest W (transport session) req"
  let ?st1 = "perform (HandleRequest (transport session)) session ?c st"
  obtain more where 1: "effects ?st1 = effects st @ HandleRequest (transport session) # more"
    using grows_perform by blast
  show ?thesis
  proof (cases "thrown ?c")
    case None
    then show ?thesis using 1 by (simp add: post_forward_def forward_def Let_def)
  next
    case (Some msg)
    obtain more2 where
      "effects (snd (post_catch msg (headersSent W (transport session) req) (transport session) ?st1))
         = effects ?st1 @ more2"
      using grows_post_catch by blast
    then show ?thesis using 1 Some by (simp add: post_forward_def forward_def Let_def)
  qed
qed

lemma post_catch_reply:
  "fst (post_catch msg sent h st) = ByTransport h
   \<or> fst (post_catch msg sent h st)
       = Sent \<lparr> status = 500, payload = error_envelope (- 32603) ''Internal server error'' \<rparr>"
  by (simp add: post_catch_def Let_def)

lemma post_forward_reply:
  "fst (post_forward W session req st) = ByTransport (transport session)
   \<or> fst (post_forward W session req st)
       = Sent \<lparr> status = 500, payload = error_envelope (- 32603) ''Internal server error'' \<rparr>"
  using post_catch_reply
  by (auto simp add: post_forward_def split: prod.splits option.splits)

text \<open>
  What the end of the POST handler does in any case: two fresh objects are created,
  the engine is connected to the transport, and, unless that throws, the request is
  handed to the new transport; the answer is left to that transport or is the
  internal error.
\<close>

lemma post_initialize_creates:
  "next_handle (snd (post_initialize W req st)) = Suc (Suc (next_handle st))
   \<and> (\<exists>more. effects (snd (post_initialize W req st))
                = effects st @ Connect (next_handle st) (Suc (next_handle st)) # more
              \<and> (thrown (connect W (next_handle st) (Suc (next_handle st))) = None
                   \<longrightarrow> HandleRequest (Suc (next_handle st)) \<in> set more))
   \<and> (fst (post_initialize W req st) = ByTransport (Suc (next_handle st))
        \<or> fst (post_initialize W req st)
            = Sent \<lparr> status = 500, payload = error_envelope (- 32603) ''Internal server error'' \<rparr>)"
proof -
  let ?a = "next_handle st"
  let ?session = "\<lparr> server = ?a, transport = Suc ?a \<rparr>"
  let ?st1 = "st\<lparr>next_handle := Suc (Suc ?a)\<rparr>"
  let ?c = "connect W ?a (Suc ?a)"
  let ?st2 = "perform (Connect ?a (Suc ?a)) ?session ?c ?st1"
  have n2: "next_handle ?st2 = Suc (Suc ?a)"
    by (simp add: next_handle_perform)
  obtain more where e2: "effects ?st2 = effects st @ Connect ?a (Suc ?a) # more"
    using grows_perform [of "Connect ?a (Suc ?a)" ?session ?c ?st1] by auto
  show ?thesis
  proof (cases "thrown ?c")
    case None
    then have p: "post_initialize W req st = post_forward W ?session req ?st2"
      by (simp add: post_initialize_def createSession_def Let_def)
    obtain more2 where "effects (snd (post_forward W ?session req ?st2))
                          = effects ?st2 @ HandleRequest (Suc ?a) # more2"
      using grows_post_forward [of W ?session req ?st2] by auto
    then have "effects (snd (post_initialize W req st))
                 = effects st @ Connect ?a (Suc ?a) # (more @ HandleRequest (Suc ?a) # more2)"
      using p e2 by simp
    moreover have "HandleRequest (Suc ?a) \<in> set (more @ HandleRequest (Suc ?a) # more2)"
      by simp
    ultimately have "\<exists>more. effects (snd (post_initialize W req st))
                = effects st @ Connect ?a (Suc ?a) # more
              \<and> (thrown ?c = None \<longrightarrow> HandleRequest (Suc ?a) \<in> set more)"
      by blast
    then show ?thesis
      using p n2 post_forward_reply [of W ?session req ?st2]
      by (simp add: next_handle_post_forward)
  next
    case (Some msg)
    then have p: "post_initialize W req st = post_catch msg False (Suc ?a) ?st2"
      by (simp add: post_initialize_def createSession_def Let_def)
    obtain more2 where "effects (snd (post_catch msg False (Suc ?a) ?st2)) = effects ?st2 @ more2"
      using grows_post_catch by blast
    then have "effects (snd (post_initialize W req st))
                 = effects st @ Connect ?a (Suc ?a) # (more @ more2)"
      using p e2 by simp
    then have "\<exists>more. effects (snd (post_initialize W req st))
                = effects st @ Connect ?a (Suc ?a) # more
              \<and> (thrown ?c = None \<longrightarrow> HandleRequest (Suc ?a) \<in> set more)"
      using Some by simp
    then show ?thesis
      using p n2 post_catch_reply [of msg False "Suc ?a" ?st2]
      by (simp add: next_handle_post_catch)
  qed
qed

text \<open>
  C10, as the code has it. For a POST to \<open>/mcp\<close> whose \<open>Mcp-Session-Id\<close> header is the
  empty string, the session-id extraction returns no id; for a header that is an array
  of values starting with the empty string, it returns the empty string. The handler
  treats either as no id, as it treats an absent header. So the request is rejected
  with 400 and -32600, the state unchanged, when its body is no initialize request.
  Otherwise a session is created: a fresh engine and a fresh transport are made and
  connected and the request is handed to the new transport; when that transport
  reports an id, the pair is in the table under that id afterwards. The answer is never
  the unknown-session error, and as far as the transport does not tell the two
  requests apart, the handler does for the request what it does for the request
  without the header.
\<close>

theorem empty_session_id_is_absent:
  assumes "mcp_session_id req = Some (Single []) \<or> mcp_session_id req = Some (Multi ([] # others))"
  shows "getSessionId (mcp_session_id req)
           = (if mcp_session_id req = Some (Single []) then None else Some [])
         \<and> truthy (getSessionId (mcp_session_id req)) = None
         \<and> truthy (getSessionId None) = None
         \<and> (\<not> isInitializeRequest W (body req) \<longrightarrow>
              post_mcp W req st =
                (Sent \<lparr> status = 400,
                        payload = error_envelope (- 32600)
                          ''Initialization request required before other operations'' \<rparr>, st))
         \<and> (isInitializeRequest W (body req) \<longrightarrow>
              next_handle (snd (post_mcp W req st)) = Suc (Suc (next_handle st))
              \<and> take (Suc (length (effects st))) (effects (snd (post_mcp W req st)))
                  = effects st @ [Connect (next_handle st) (Suc (next_handle st))]
              \<and> (thrown (connect W (next_handle st) (Suc (next_handle st))) = None \<longrightarrow>
                   HandleRequest (Suc (next_handle st))
                     \<in> set (new_effects st (snd (post_mcp W req st)))))
         \<and> (isInitializeRequest W (body req)
              \<and> connect W (next_handle st) (Suc (next_handle st)) = Call [] None
              \<and> handleRequest W (Suc (next_handle st)) req
                  = Call [OnSessionInitialized (Some sessionId)] None
              \<and> sessionId \<noteq> [] \<longrightarrow>
              post_mcp W req st =
                (ByTransport (Suc (next_handle st)),
                 \<lparr> sessions = AList.update sessionId
                                \<lparr> server = next_handle st, transport = Suc (next_handle st) \<rparr>
                                (sessions st),
                   effects = effects st @
                     [Connect (next_handle st) (Suc (next_handle st)),
                      HandleRequest (Suc (next_handle st)),
                      Invoked (Suc (next_handle st)) (OnSessionInitialized (Some sessionId)),
                      SessionsSet sessionId
                        \<lparr> server = next_handle st, transport = Suc (next_handle st) \<rparr>,
                      Log (''Initialized MCP session '' @ sessionId)],
                   next_handle = Suc (Suc (next_handle st)) \<rparr>))
         \<and> (\<forall>r. fst (post_mcp W req st) = Sent r \<longrightarrow> status r \<noteq> 404)
         \<and> ((\<forall>t. handleRequest W t (req\<lparr>mcp_session_id := None\<rparr>) = handleRequest W t req
                  \<and> headersSent W t (req\<lparr>mcp_session_id := None\<rparr>) = headersSent W t req) \<longrightarrow>
              post_mcp W (req\<lparr>mcp_session_id := None\<rparr>) st = post_mcp W req st)"
proof -
  let ?a = "next_handle st"
  have g: "getSessionId (mcp_session_id req)
             = (if mcp_session_id req = Some (Single []) then None else Some [])"
    using assms by auto
  have t: "truthy (getSessionId (mcp_session_id req)) = None"
    using assms by (auto simp add: truthy_def)
  have t0: "truthy (getSessionId None) = None"
    by (simp add: truthy_def)
  have no: "\<not> isInitializeRequest W (body req) \<longrightarrow>
              post_mcp W req st =
                (Sent \<lparr> status = 400,
                        payload = error_envelope (- 32600)
                          ''Initialization request required before other operations'' \<rparr>, st)"
    using t by (simp add: post_mcp_def)
  have init: "isInitializeRequest W (body req) \<longrightarrow> post_mcp W req st = post_initialize W req st"
    using t by (simp add: post_mcp_def)
  obtain more where m: "effects (snd (post_initialize W req st))
                          = effects st @ Connect ?a (Suc ?a) # more"
    and h: "thrown (connect W ?a (Suc ?a)) = None \<longrightarrow> HandleRequest (Suc ?a) \<in> set more"
    using post_initialize_creates [of W req st] by (elim conjE exE)
  have created: "isInitializeRequest W (body req) \<longrightarrow>
              next_handle (snd (post_mcp W req st)) = Suc (Suc ?a)
              \<and> take (Suc (length (effects st))) (effects (snd (post_mcp W req st)))
                  = effects st @ [Connect ?a (Suc ?a)]
              \<and> (thrown (connect W ?a (Suc ?a)) = None \<longrightarrow>
                   HandleRequest (Suc ?a) \<in> set (new_effects st (snd (post_mcp W req st))))"
    using init m h post_initialize_creates [of W req st] by (auto simp add: new_effects_def)
  have published: "isInitializeRequest W (body req)
              \<and> connect W ?a (Suc ?a) = Call [] None
              \<and> handleRequest W (Suc ?a) req = Call [OnSessionInitialized (Some sessionId)] None
              \<and> sessionId \<noteq> [] \<longrightarrow>
              post_mcp W req st =
                (ByTransport (Suc ?a),
                 \<lparr> sessions = AList.update sessionId \<lparr> server = ?a, transport = Suc ?a \<rparr> (sessions st),
                   effects = effects st @
                     [Connect ?a (Suc ?a), HandleRequest (Suc ?a),
                      Invoked (Suc ?a) (OnSessionInitialized (Some sessionId)),
                      SessionsSet sessionId \<lparr> server = ?a, transport = Suc ?a \<rparr>,
                      Log (''Initialized MCP session '' @ sessionId)],
                   next_handle = Suc (Suc ?a) \<rparr>)"
    using t
    by (simp add: post_mcp_def post_initialize_def createSession_def Let_def perform_def
        post_forward_def forward_def emit_def logToFile_def sessions_set_def truthy_def)
  have never: "\<forall>r. fst (post_mcp W req st) = Sent r \<longrightarrow> status r \<noteq> 404"
  proof (cases "isInitializeRequest W (body req)")
    case True
    then show ?thesis
      using init post_initialize_creates [of W req st] by auto
  next
    case False
    then show ?thesis using no by auto
  qed
  have same: "(\<forall>t. handleRequest W t (req\<lparr>mcp_session_id := None\<rparr>) = handleRequest W t req
                  \<and> headersSent W t (req\<lparr>mcp_session_id := None\<rparr>) = headersSent W t req) \<longrightarrow>
              post_mcp W (req\<lparr>mcp_session_id := None\<rparr>) st = post_mcp W req st"
  proof
    assume alike: "\<forall>t. handleRequest W t (req\<lparr>mcp_session_id := None\<rparr>) = handleRequest W t req
                  \<and> headersSent W t (req\<lparr>mcp_session_id := None\<rparr>) = headersSent W t req"
    have "post_forward W session (req\<lparr>mcp_session_id := None\<rparr>) st2
            = post_forward W session req st2" for session st2
      using alike by (simp add: post_forward_def forward_def Let_def split: option.splits)
    then have "post_initialize W (req\<lparr>mcp_session_id := None\<rparr>) st = post_initialize W req st"
      by (simp add: post_initialize_def Let_def split: prod.splits option.splits)
    then show "post_mcp W (req\<lparr>mcp_session_id := None\<rparr>) st = post_mcp W req st"
      using t t0 by (simp add: post_mcp_def)
  qed
  show ?thesis
    using g t t0 no created published never same by blast
qed

theorem empty_session_id_is_absent_witness:
  "post_mcp quiet ((plain_request POST Mcp)\<lparr>mcp_session_id := Some (Single [])\<rparr>) three_sessions
     = (Sent \<lparr> status = 400,
               payload = error_envelope (- 32600)
                 ''Initialization request required before other operations'' \<rparr>, three_sessions)
   \<and> post_mcp (announcing ''d'')
        ((plain_request POST Mcp)\<lparr>mcp_session_id := Some (Multi [[], ''a'']), body := True\<rparr>)
        three_sessions
     = (ByTransport 7,
        \<lparr> sessions = [(''a'', \<lparr> server = 0, transport = 1 \<rparr>),
                      (''b'', \<lparr> server = 2, transport = 3 \<rparr>),
                      (''c'', \<lparr> server = 4, transport = 5 \<rparr>),
                      (''d'', \<lparr> server = 6, transport = 7 \<rparr>)],
          effects = [Connect 6 7, HandleRequest 7, Invoked 7 (OnSessionInitialized (Some ''d'')),
                     SessionsSet ''d'' \<lparr> server = 6, transport = 7 \<rparr>,
                     Log ''Initialized MCP session d''],
          next_handle = 8 \<rparr>)"
  using empty_session_id_is_absent
      [of "(plain_request POST Mcp)\<lparr>mcp_session_id := Some (Single [])\<rparr>" "[]" quiet three_sessions]
    empty_session_id_is_absent
      [of "(plain_request POST Mcp)\<lparr>mcp_session_id := Some (Multi [[], ''a'']), body := True\<rparr>"
          "[''a'']" "announcing ''d''" three_sessions "''d''"]
  by (simp add: plain_request_def quiet_def announcing_def three_sessions_def)

text \<open>
  C10, as stated, fails in one point: for a header that is an array of values starting
  with the empty string, the session-id extraction returns the empty string, not the
  absence of an id that it returns for an absent header.
\<close>

theorem first_value_empty_is_extracted:
  "getSessionId (Some (Multi [[], ''a''])) = Some []
   \<and> getSessionId None = None
   \<and> getSessionId (Some (Multi [[], ''a''])) \<noteq> getSessionId None"
  by simp

section \<open>Properties of the session table\<close>

text \<open>
  C5. In every state that the HTTP binding reaches, the keys of the session table are
  pairwise distinct, and the table is what the recorded calls of \<open>sessions.set\<close> and
  \<open>sessions.delete\<close> have made of the empty table. Every call of \<open>sessions.set\<close>
  comes directly after the transport of the entry has invoked
  \<open>onsessioninitialized\<close> with the id that is set, never before; so at every point of
  the run, an id in the table has been reported by that callback earlier.
  \<open>createSession\<close> itself leaves the table and the effects as they are.
\<close>

theorem session_published_by_callback_only:
  assumes "run environ evs = Some st"
  shows "distinct (map fst (sessions st))
   \<and> sessions st = table_of (effects st)
   \<and> (\<forall>made sessionId entry rest.
         effects st = made @ SessionsSet sessionId entry # rest \<longrightarrow>
         made \<noteq> [] \<and> last made = Invoked (transport entry) (OnSessionInitialized (Some sessionId)))
   \<and> (\<forall>n. \<forall>sessionId \<in> fst ` set (table_of (take n (effects st))).
         \<exists>t. Invoked t (OnSessionInitialized (Some sessionId)) \<in> set (take n (effects st)))
   \<and> sessions (snd (createSession st0)) = sessions st0
   \<and> effects (snd (createSession st0)) = effects st0"
proof -
  have s: "sessions st = table_of (effects st)" and a: "announced None (effects st)"
    using run_shape [OF assms] by simp_all
  have d: "distinct (map fst (sessions st))"
    unfolding s table_of_def by (rule distinct_replay) simp
  have b: "\<forall>made sessionId entry rest.
         effects st = made @ SessionsSet sessionId entry # rest \<longrightarrow>
         made \<noteq> [] \<and> last made = Invoked (transport entry) (OnSessionInitialized (Some sessionId))"
    using a announced_before_set by metis
  have p: "\<forall>n. \<forall>sessionId \<in> fst ` set (table_of (take n (effects st))).
         \<exists>t. Invoked t (OnSessionInitialized (Some sessionId)) \<in> set (take n (effects st))"
    using announced_table_of [OF announced_take [OF a]] by blast
  have c: "sessions (snd (createSession st0)) = sessions st0
           \<and> effects (snd (createSession st0)) = effects st0"
    by (simp add: createSession_def)
  show ?thesis using s d b p c by blast
qed

theorem session_published_by_callback_only_witness:
  "run base_env [Request (announcing ''abc'') initialize_request] = Some published_abc
   \<and> distinct (map fst (sessions published_abc))
   \<and> sessions published_abc = table_of (effects published_abc)
   \<and> effects published_abc
       = [Log auth_warning, Connect 0 1, HandleRequest 1,
          Invoked 1 (OnSessionInitialized (Some ''abc''))]
         @ SessionsSet ''abc'' \<lparr> server = 0, transport = 1 \<rparr>
           # [Log ''Initialized MCP session abc'']
   \<and> last [Log auth_warning, Connect 0 1, HandleRequest 1,
            Invoked 1 (OnSessionInitialized (Some ''abc''))]
       = Invoked (transport \<lparr> server = 0, transport = 1 \<rparr>) (OnSessionInitialized (Some ''abc''))
   \<and> (\<exists>t. Invoked t (OnSessionInitialized (Some ''abc'')) \<in> set (take 5 (effects published_abc)))
   \<and> run base_env [Request quiet initialize_request, Request quiet (plain_request GET Healthz)]
       = Some \<lparr> sessions = [], effects = [Log auth_warning, Connect 0 1, HandleRequest 1],
                next_handle = 2 \<rparr>"
proof -
  have r: "run base_env [Request (announcing ''abc'') initialize_request] = Some published_abc"
    by (simp add: run_def startHttpServer_def base_env_def truthy_def app_def router_def
        initialize_request_def plain_request_def post_mcp_def post_initialize_def
        createSession_def announcing_def quiet_def post_forward_def forward_def perform_def
        sessions_set_def emit_def logToFile_def published_abc_def Let_def)
  have q: "run base_env [Request quiet initialize_request, Request quiet (plain_request GET Healthz)]
       = Some \<lparr> sessions = [], effects = [Log auth_warning, Connect 0 1, HandleRequest 1],
                next_handle = 2 \<rparr>"
    by (simp add: run_def startHttpServer_def base_env_def truthy_def app_def router_def
        initialize_request_def plain_request_def post_mcp_def post_initialize_def
        createSession_def quiet_def post_forward_def forward_def perform_def ok_handler_def
        emit_def logToFile_def Let_def)
  have e: "effects published_abc
       = [Log auth_warning, Connect 0 1, HandleRequest 1,
          Invoked 1 (OnSessionInitialized (Some ''abc''))]
         @ SessionsSet ''abc'' \<lparr> server = 0, transport = 1 \<rparr>
           # [Log ''Initialized MCP session abc'']"
    by (simp add: published_abc_def)
  have k: "''abc'' \<in> fst ` set (table_of (take 5 (effects published_abc)))"
    by (simp add: published_abc_def table_of_def replay_def)
  note shape = session_published_by_callback_only [OF r, of three_sessions]
  have d: "distinct (map fst (sessions published_abc))"
    and t: "sessions published_abc = table_of (effects published_abc)"
    using shape by blast+
  have "\<forall>sessionId \<in> fst ` set (table_of (take 5 (effects published_abc))).
          \<exists>t. Invoked t (OnSessionInitialized (Some sessionId)) \<in> set (take 5 (effects published_abc))"
    using shape by blast
  then have i: "\<exists>t. Invoked t (OnSessionInitialized (Some ''abc''))
                    \<in> set (take 5 (effects published_abc))"
    using k by blast
  have l: "last [Log auth_warning, Connect 0 1, HandleRequest 1,
                 Invoked 1 (OnSessionInitialized (Some ''abc''))]
       = Invoked (transport \<lparr> server = 0, transport = 1 \<rparr>) (OnSessionInitialized (Some ''abc''))"
    by simp
  show ?thesis
    using r d t e l i q by blast
qed

section \<open>Properties of shutdown\<close>

subsection \<open>Close calls among the effects\<close>

lemma closes_emit:
  "filter is_close (effects (emit made st))
   = filter is_close (effects st) @ (if is_close made then [made] else [])"
  by (simp add: emit_def)

lemma closes_logToFile: "filter is_close (effects (logToFile msg st)) = filter is_close (effects st)"
  by (simp add: logToFile_def closes_emit)

lemma closes_sessions_set:
  "filter is_close (effects (sessions_set k e st)) = filter is_close (effects st)"
  by (simp add: sessions_set_def emit_def)

lemma closes_sessions_delete:
  "filter is_close (effects (sessions_delete k st)) = filter is_close (effects st)"
  by (simp add: sessions_delete_def emit_def)

lemma closes_case_log:
  "filter is_close (effects (case failure of None \<Rightarrow> st | Some msg \<Rightarrow> logToFile (line msg) st))
   = filter is_close (effects st)"
  by (cases failure) (simp_all add: closes_logToFile)

lemma closes_case_delete:
  "filter is_close (effects (case v of None \<Rightarrow> st | Some k \<Rightarrow> sessions_delete k st))
   = filter is_close (effects st)"
  by (cases v) (simp_all add: closes_sessions_delete)

lemma closes_run_callback:
  "filter is_close (effects (run_callback e cb st))
   = filter is_close (effects st) @ replicate (onclose_count cb) (ServerClose (server e))"
  "filter is_close (effects (run_callbacks e cbs st))
   = filter is_close (effects st) @ replicate (onclose_counts cbs) (ServerClose (server e))"
proof (induction e cb st and e cbs st rule: run_callback_run_callbacks.induct)
  case (1 e v st)
  show ?case
    by (cases "truthy v")
       (simp_all add: Let_def closes_emit closes_logToFile closes_sessions_set)
next
  case (2 e v st)
  show ?case
    by (cases "truthy v")
       (simp_all add: Let_def closes_emit closes_logToFile closes_sessions_delete)
next
  case (3 e v cbs failure st)
  show ?case
    by (simp only: run_callback.simps Let_def closes_case_log "3.IH" closes_emit
          closes_case_delete onclose_count.simps)
       (simp add: replicate_app_Cons_same)
next
  case (4 e st)
  show ?case by simp
next
  case (5 e cb cbs st)
  then show ?case by (simp add: replicate_add)
qed

lemma closes_perform:
  "filter is_close (effects (perform made session c st))
   = filter is_close (effects st) @ (if is_close made then [made] else [])
     @ replicate (onclose_counts (fired c)) (ServerClose (server session))"
  by (simp add: perform_def closes_run_callback(2) closes_emit)

lemma closes_close_session:
  "filter is_close (effects (close_session W sessionId session st))
   = filter is_close (effects st)
     @ TransportClose (transport session)
       # replicate (Suc (onclose_counts (fired (close_transport W (transport session)))
                         + onclose_counts (fired (close_server W (server session)))))
           (ServerClose (server session))"
  by (simp only: close_session_def Let_def closes_sessions_delete closes_case_log closes_perform)
     (simp add: replicate_add replicate_app_Cons_same)

subsection \<open>The table while a session is closed\<close>

lemma sessions_emit: "sessions (emit made st) = sessions st"
  by (simp add: emit_def)

lemma sessions_logToFile: "sessions (logToFile msg st) = sessions st"
  by (simp add: logToFile_def sessions_emit)

lemma sessions_sessions_delete: "sessions (sessions_delete k st) = AList.delete k (sessions st)"
  by (simp add: sessions_delete_def emit_def)

lemma sessions_case_log:
  "sessions (case failure of None \<Rightarrow> st | Some msg \<Rightarrow> logToFile (line msg) st) = sessions st"
  by (cases failure) (simp_all add: sessions_logToFile)

lemma own_callbacks_sessions:
  "concerns k cb
   \<Longrightarrow> sessions (run_callback e cb st) = sessions st
       \<or> sessions (run_callback e cb st) = AList.delete k (sessions st)"
  "concern k cbs
   \<Longrightarrow> sessions (run_callbacks e cbs st) = sessions st
       \<or> sessions (run_callbacks e cbs st) = AList.delete k (sessions st)"
proof (induction e cb st and e cbs st rule: run_callback_run_callbacks.induct)
  case (1 e v st)
  then show ?case by (simp add: Let_def sessions_emit)
next
  case (2 e v st)
  then show ?case
    by (auto simp add: Let_def sessions_emit sessions_logToFile sessions_sessions_delete truthy_def)
next
  case (3 e v cbs failure st)
  let ?st0 = "emit (Invoked (transport e) (OnClose v (Call cbs failure))) st"
  let ?st1 = "case truthy v of None \<Rightarrow> ?st0 | Some sessionId \<Rightarrow> sessions_delete sessionId ?st0"
  let ?st1b = "emit (ServerClose (server e)) ?st1"
  have 1: "sessions ?st1b = sessions st \<or> sessions ?st1b = AList.delete k (sessions st)"
    using "3.prems"
    by (auto simp add: sessions_emit sessions_sessions_delete truthy_def split: option.splits)
  have c: "concern k cbs" using "3.prems" by simp
  have 2: "sessions (run_callbacks e cbs ?st1b) = sessions ?st1b
           \<or> sessions (run_callbacks e cbs ?st1b) = AList.delete k (sessions ?st1b)"
    using "3.IH" c by simp
  have "sessions (run_callbacks e cbs ?st1b) = sessions st
        \<or> sessions (run_callbacks e cbs ?st1b) = AList.delete k (sessions st)"
    using 1 2 by (auto simp add: delete_idem)
  then show ?case
    by (simp only: run_callback.simps Let_def sessions_case_log)
next
  case (4 e st)
  show ?case by simp
next
  case (5 e cb cbs st)
  let ?st1 = "run_callback e cb st"
  have 1: "sessions ?st1 = sessions st \<or> sessions ?st1 = AList.delete k (sessions st)"
    using 5 by simp
  have 2: "sessions (run_callbacks e cbs ?st1) = sessions ?st1
           \<or> sessions (run_callbacks e cbs ?st1) = AList.delete k (sessions ?st1)"
    using 5 by simp
  show ?case
    using 1 2 by (auto simp add: delete_idem)
qed

lemma own_perform_sessions:
  "concern k (fired c)
   \<Longrightarrow> sessions (perform made session c st) = sessions st
       \<or> sessions (perform made session c st) = AList.delete k (sessions st)"
  using own_callbacks_sessions(2) [of k "fired c" session "emit made st"]
  by (simp add: perform_def sessions_emit)

lemma own_close_session_sessions:
  assumes "concern k (fired (close_transport W (transport session)))"
    and "concern k (fired (close_server W (server session)))"
  shows "sessions (close_session W k session st) = AList.delete k (sessions st)"
proof -
  let ?c1 = "close_transport W (transport session)"
  let ?st1 = "perform (TransportClose (transport session)) session ?c1 st"
  let ?st2 = "case thrown ?c1 of None \<Rightarrow> ?st1
              | Some msg \<Rightarrow> logToFile (''Error closing transport for session '' @ k @ '': '' @ msg) ?st1"
  let ?c2 = "close_server W (server session)"
  let ?st3 = "perform (ServerClose (server session)) session ?c2 ?st2"
  have 1: "sessions ?st2 = sessions st \<or> sessions ?st2 = AList.delete k (sessions st)"
    using own_perform_sessions [OF assms(1)] by (simp only: sessions_case_log)
  have 3: "sessions ?st3 = sessions ?st2 \<or> sessions ?st3 = AList.delete k (sessions ?st2)"
    by (rule own_perform_sessions [OF assms(2)])
  have "AList.delete k (sessions ?st3) = AList.delete k (sessions st)"
    using 1 3 by (auto simp add: delete_idem)
  then show ?thesis
    by (simp only: close_session_def Let_def sessions_sessions_delete sessions_case_log)
qed

lemma close_sessions_ends:
  assumes "sessions st = table" and "distinct (map fst table)"
    and "closes_concern_own_session W table"
  shows "\<exists>st'. close_sessions W st = Some st' \<and> sessions st' = []
           \<and> filter is_close (effects st') = filter is_close (effects st) @ close_calls W table"
  using assms
proof (induction table arbitrary: st)
  case Nil
  then show ?case
    by (subst close_sessions.simps) (simp add: close_calls_def)
next
  case (Cons entry rest)
  obtain k session where e: "entry = (k, session)" by (cases entry)
  let ?st1 = "close_session W k session st"
  have own: "concern k (fired (close_transport W (transport session)))"
    "concern k (fired (close_server W (server session)))"
    using Cons.prems(3) e by (simp_all add: closes_concern_own_session_def)
  have "k \<notin> fst ` set rest" using Cons.prems(2) e by auto
  then have s1: "sessions ?st1 = rest"
    using own_close_session_sessions [OF own] Cons.prems(1) e by simp
  have "distinct (map fst rest)" and "closes_concern_own_session W rest"
    using Cons.prems(2,3) by (simp_all add: closes_concern_own_session_def)
  then obtain st' where r: "close_sessions W ?st1 = Some st'" "sessions st' = []"
    "filter is_close (effects st') = filter is_close (effects ?st1) @ close_calls W rest"
    using Cons.IH [OF s1] by blast
  have "close_sessions W st = close_sessions W ?st1"
    using Cons.prems(1) e by (subst close_sessions.simps) simp
  moreover have "filter is_close (effects st')
                   = filter is_close (effects st) @ close_calls W (entry # rest)"
    using r(3) e by (simp add: closes_close_session close_calls_def)
  ultimately show ?case using r(1,2) by simp
qed

lemma cleanup_ends:
  assumes "distinct (map fst (sessions st))" and "closes_concern_own_session W (sessions st)"
  shows "\<exists>st'. cleanup W st = Some (st', close_listener W) \<and> sessions st' = []
           \<and> filter is_close (effects st')
               = filter is_close (effects st) @ close_calls W (sessions st) @ [ListenerClose]"
proof -
  let ?st1 = "logToFile ''Shutting down HTTP server...'' st"
  have "sessions ?st1 = sessions st" by (rule sessions_logToFile)
  then obtain st2 where r: "close_sessions W ?st1 = Some st2" "sessions st2 = []"
    "filter is_close (effects st2) = filter is_close (effects ?st1) @ close_calls W (sessions st)"
    using close_sessions_ends [OF _ assms, of ?st1] by blast
  have "cleanup W st = Some (emit ListenerClose st2, close_listener W)"
    using r(1) by (simp add: cleanup_def)
  moreover have "sessions (emit ListenerClose st2) = []"
    using r(2) by (simp add: sessions_emit)
  moreover have "filter is_close (effects (emit ListenerClose st2))
                   = filter is_close (effects st) @ close_calls W (sessions st) @ [ListenerClose]"
    using r(3) by (simp add: closes_emit closes_logToFile)
  ultimately show ?thesis by blast
qed

lemma process_run_Cons: "process_run (ev # evs) p = process_run evs (process_step ev p)"
  by (simp add: process_run_def)

lemma process_run_append: "process_run (xs @ ys) p = process_run ys (process_run xs p)"
  by (simp add: process_run_def)

lemma process_run_exited: "exited p \<noteq> None \<Longrightarrow> process_run evs p = p"
proof (induction evs)
  case Nil
  show ?case by (simp add: process_run_def)
next
  case (Cons ev evs)
  have "process_step ev p = p"
    using Cons.prems by (cases ev) simp_all
  then show ?case
    using Cons by (simp add: process_run_Cons)
qed

lemma process_run_settled_only:
  "(\<forall>ev \<in> set pre. \<exists>r. ev = CleanupSettled r) \<Longrightarrow> process_run pre running = running"
proof (induction pre)
  case Nil
  show ?case by (simp add: process_run_def)
next
  case (Cons ev pre)
  then obtain r where "ev = CleanupSettled r" by auto
  then have "process_step ev running = running"
    by (simp add: running_def cleanup_settled_def)
  then show ?case using Cons by (simp add: process_run_Cons)
qed

lemma exit_code_of_run:
  assumes "\<forall>ev \<in> set pre. \<exists>r. ev = CleanupSettled r"
  shows "exited (process_run (pre @ Trigger t # ev # rest) running)
           = Some (case ev of Trigger t' \<Rightarrow> exitCode t' | CleanupSettled r \<Rightarrow> exitCode t)"
proof -
  let ?p = "process_step ev (process_step (Trigger t) running)"
  have e: "exited ?p = Some (case ev of Trigger t' \<Rightarrow> exitCode t' | CleanupSettled r \<Rightarrow> exitCode t)"
    by (cases ev) (simp_all add: running_def shutdown_def cleanup_settled_def)
  then have "process_run rest ?p = ?p"
    by (simp add: process_run_exited)
  then show ?thesis
    using e process_run_settled_only [OF assms]
    by (simp add: process_run_append process_run_Cons)
qed

text \<open>
  C7, as the code has it. Let the callbacks that the library invokes during the close
  calls of a session concern that session only and publish no session. Then, whatever
  fails while closing, the cleanup closure of the HTTP binding ends; it closes, for
  each session of the table in turn, its transport and then its engine (the engine
  once by the loop and once by every run of \<open>transport.onclose\<close> that the close calls
  cause), and after all of them the listener; it leaves the table empty, and it
  rejects only if closing the listener reports an error. The closure of the stdio
  binding closes the transport and then the engine. A trigger calls the closure once.
  When the closure ends before another trigger arrives, the process exits with the code
  of that trigger, 0 for \<open>SIGTERM\<close> and \<open>SIGINT\<close> and 1 for an uncaught exception and
  an unhandled rejection. A trigger that arrives before the closure has ended exits at
  once with its own code: in every run the exit code is that of the trigger whose call
  of \<open>shutdown\<close> reaches \<open>process.exit\<close>.
\<close>

theorem cleanup_closes_every_session:
  assumes "distinct (map fst (sessions st))" and "closes_concern_own_session W (sessions st)"
  shows "(\<exists>st'. cleanup W st = Some (st', close_listener W)
            \<and> sessions st' = []
            \<and> take (length (effects st)) (effects st') = effects st
            \<and> filter is_close (new_effects st st') = close_calls W (sessions st) @ [ListenerClose]
            \<and> server_run (cleanup W) [Triggered t, CleanupEnds] (running, st)
                = Some (\<lparr> shuttingDown = True, cleanup_calls = 1, awaiting = Some (exitCode t),
                          exited = Some (exitCode t) \<rparr>, st'))
   \<and> filter is_close (stdio_cleanup W stdio)
       = [TransportClose (transport stdio), ServerClose (server stdio)]
   \<and> server_run (\<lambda>made. Some (made @ stdio_cleanup W stdio, None)) [Triggered t, CleanupEnds]
        (running, made0)
       = Some (\<lparr> shuttingDown = True, cleanup_calls = 1, awaiting = Some (exitCode t),
                 exited = Some (exitCode t) \<rparr>, made0 @ stdio_cleanup W stdio)
   \<and> server_run (cleanup W) [Triggered t, Triggered t'] (running, st)
       = Some (\<lparr> shuttingDown = True, cleanup_calls = 1, awaiting = Some (exitCode t),
                 exited = Some (exitCode t') \<rparr>, st)
   \<and> exitCode t = (if t = SIGTERM \<or> t = SIGINT then 0 else 1)
   \<and> ((\<forall>ev \<in> set pre. \<exists>r. ev = CleanupSettled r) \<longrightarrow>
        exited (process_run (pre @ Trigger t # ev # rest) running)
          = Some (case ev of Trigger t' \<Rightarrow> exitCode t' | CleanupSettled r \<Rightarrow> exitCode t))"
proof -
  obtain st' where c: "cleanup W st = Some (st', close_listener W)" and s: "sessions st' = []"
    and f: "filter is_close (effects st')
              = filter is_close (effects st) @ close_calls W (sessions st) @ [ListenerClose]"
    using cleanup_ends [OF assms] by blast
  obtain made where m: "effects st' = effects st @ made"
    using advances_cleanup [OF c] by (auto simp add: advances_def)
  have a: "take (length (effects st)) (effects st') = effects st"
    using m by simp
  have b: "filter is_close (new_effects st st') = close_calls W (sessions st) @ [ListenerClose]"
    using m f by (simp add: new_effects_def)
  have r: "server_run (cleanup W) [Triggered t, CleanupEnds] (running, st)
             = Some (\<lparr> shuttingDown = True, cleanup_calls = 1, awaiting = Some (exitCode t),
                       exited = Some (exitCode t) \<rparr>, st')"
    using c by (simp add: running_def shutdown_def cleanup_settled_def)
  have http: "\<exists>st'. cleanup W st = Some (st', close_listener W)
            \<and> sessions st' = []
            \<and> take (length (effects st)) (effects st') = effects st
            \<and> filter is_close (new_effects st st') = close_calls W (sessions st) @ [ListenerClose]
            \<and> server_run (cleanup W) [Triggered t, CleanupEnds] (running, st)
                = Some (\<lparr> shuttingDown = True, cleanup_calls = 1, awaiting = Some (exitCode t),
                          exited = Some (exitCode t) \<rparr>, st')"
    using c s a b r by blast
  have stdio1: "filter is_close (stdio_cleanup W stdio)
                  = [TransportClose (transport stdio), ServerClose (server stdio)]"
    by (simp add: stdio_cleanup_def split: option.splits)
  have stdio2: "server_run (\<lambda>made. Some (made @ stdio_cleanup W stdio, None)) [Triggered t, CleanupEnds]
        (running, made0)
       = Some (\<lparr> shuttingDown = True, cleanup_calls = 1, awaiting = Some (exitCode t),
                 exited = Some (exitCode t) \<rparr>, made0 @ stdio_cleanup W stdio)"
    by (simp add: running_def shutdown_def cleanup_settled_def)
  have second: "server_run (cleanup W) [Triggered t, Triggered t'] (running, st)
       = Some (\<lparr> shuttingDown = True, cleanup_calls = 1, awaiting = Some (exitCode t),
                 exited = Some (exitCode t') \<rparr>, st)"
    by (simp add: running_def shutdown_def)
  have code: "exitCode t = (if t = SIGTERM \<or> t = SIGINT then 0 else 1)"
    by (cases t) simp_all
  show ?thesis
    using http stdio1 stdio2 second code exit_code_of_run by blast
qed

theorem cleanup_closes_every_session_witness:
  "\<exists>st'. cleanup flaky three_sessions = Some (st', None)
      \<and> sessions st' = []
      \<and> filter is_close (new_effects three_sessions st')
          = [TransportClose 1, ServerClose 0, ServerClose 0,
             TransportClose 3, ServerClose 2, ServerClose 2,
             TransportClose 5, ServerClose 4, ServerClose 4, ListenerClose]
      \<and> server_run (cleanup flaky) [Triggered SIGTERM, CleanupEnds] (running, three_sessions)
          = Some (\<lparr> shuttingDown = True, cleanup_calls = 1, awaiting = Some 0, exited = Some 0 \<rparr>, st')"
proof -
  have d: "distinct (map fst (sessions three_sessions))"
    by (simp add: three_sessions_def)
  have o: "closes_concern_own_session flaky (sessions three_sessions)"
    by (simp add: closes_concern_own_session_def three_sessions_def flaky_def quiet_def truthy_def)
  have k: "close_calls flaky (sessions three_sessions)
             = [TransportClose 1, ServerClose 0, ServerClose 0,
                TransportClose 3, ServerClose 2, ServerClose 2,
                TransportClose 5, ServerClose 4, ServerClose 4]"
    by (simp add: close_calls_def three_sessions_def flaky_def quiet_def)
  have l: "close_listener flaky = None"
    by (simp add: flaky_def quiet_def)
  have c: "exitCode SIGTERM = 0"
    by simp
  obtain st' where "cleanup flaky three_sessions = Some (st', close_listener flaky)"
    and "sessions st' = []"
    and "filter is_close (new_effects three_sessions st')
           = close_calls flaky (sessions three_sessions) @ [ListenerClose]"
    and "server_run (cleanup flaky) [Triggered SIGTERM, CleanupEnds] (running, three_sessions)
           = Some (\<lparr> shuttingDown = True, cleanup_calls = 1, awaiting = Some (exitCode SIGTERM),
                     exited = Some (exitCode SIGTERM) \<rparr>, st')"
    using cleanup_closes_every_session [OF d o, of SIGTERM] by blast
  then show ?thesis
    unfolding k l c by auto
qed

text \<open>
  C7, as stated, fails: when shutdown is started by an uncaught exception and
  \<open>SIGTERM\<close> arrives before cleanup has ended, the process exits with the code 0,
  not with the code 1 of the fault.
\<close>

theorem fault_then_signal_exits_zero:
  "exited (process_run [Trigger UncaughtException, Trigger SIGTERM] running) = Some 0
   \<and> exitCode UncaughtException = 1"
  by (simp add: process_run_def running_def shutdown_def)

lemma process_run_snoc: "process_run (evs @ [ev]) p = process_step ev (process_run evs p)"
  by (simp add: process_run_def)

lemma process_run_invariant:
  "shuttingDown (process_run evs running) = (\<exists>t. Trigger t \<in> set evs)
   \<and> cleanup_calls (process_run evs running) = (if \<exists>t. Trigger t \<in> set evs then 1 else 0)
   \<and> (exited (process_run evs running) \<noteq> None \<longrightarrow> shuttingDown (process_run evs running))
   \<and> (awaiting (process_run evs running) \<noteq> None \<longrightarrow> shuttingDown (process_run evs running))"
proof (induction evs rule: rev_induct)
  case Nil
  show ?case by (simp add: process_run_def running_def)
next
  case (snoc ev evs)
  let ?p = "process_run evs running"
  show ?case
  proof (cases ev)
    case (Trigger t)
    then show ?thesis
      using snoc.IH unfolding process_run_snoc
      by (auto simp add: shutdown_def)
  next
    case (CleanupSettled rejected)
    then show ?thesis
      using snoc.IH unfolding process_run_snoc
      by (auto simp add: cleanup_settled_def split: option.splits)
  qed
qed

text \<open>
  C6, as the code has it. Over any sequence of triggers and cleanup completions,
  \<open>cleanup\<close> is called exactly once if a trigger occurs and never otherwise; a
  trigger that arrives after the first one, while the process has not exited, exits
  at once with its own exit code and calls \<open>cleanup\<close> no further time.
\<close>

theorem cleanup_runs_once:
  "cleanup_calls (process_run evs running) = (if \<exists>t. Trigger t \<in> set evs then 1 else 0)
   \<and> ((\<exists>t. Trigger t \<in> set evs) \<and> exited (process_run evs running) = None \<longrightarrow>
        process_run (evs @ [Trigger t']) running
          = (process_run evs running)\<lparr>exited := Some (exitCode t')\<rparr>)"
  using process_run_invariant [of evs]
  by (simp add: process_run_snoc shutdown_def)

theorem cleanup_runs_once_witness:
  "process_run ([Trigger SIGINT] @ [Trigger UnhandledRejection]) running
     = \<lparr> shuttingDown = True, cleanup_calls = 1, awaiting = Some 0, exited = Some 1 \<rparr>"
proof -
  have p: "process_run [Trigger SIGINT] running
             = \<lparr> shuttingDown = True, cleanup_calls = 1, awaiting = Some 0, exited = None \<rparr>"
    by (simp add: process_run_def running_def shutdown_def)
  have "(\<exists>t. Trigger t \<in> set [Trigger SIGINT]) \<and> exited (process_run [Trigger SIGINT] running) = None"
    using p by simp
  then have "process_run ([Trigger SIGINT] @ [Trigger UnhandledRejection]) running
               = (process_run [Trigger SIGINT] running)\<lparr>exited := Some (exitCode UnhandledRejection)\<rparr>"
    using cleanup_runs_once [of "[Trigger SIGINT]" UnhandledRejection] by blast
  then show ?thesis
    using p by simp
qed

text \<open>
  C6, as stated, fails: when \<open>SIGTERM\<close> is followed by an uncaught exception before
  cleanup has ended, the process exits with the code of the second trigger, 1, and not
  with the code 0 chosen by the first.
\<close>

theorem second_trigger_exit_code:
  "exited (process_run [Trigger SIGTERM, Trigger UncaughtException] running)
     = Some (exitCode UncaughtException)
   \<and> exitCode UncaughtException \<noteq> exitCode SIGTERM"
  by (simp add: process_run_def running_def shutdown_def)

end
